theory Spec2Isabelle
  imports Main "HOL-Library.Word"
begin

section \<open>The admin user-management service (main.py)\<close>

text \<open>
  The service keeps two stores.  The local SQLite file holds the tables
  \<open>admin_sessions\<close> and \<open>settings\<close>; the PostgreSQL database holds the table
  \<open>users\<close>.  Every handler of main.py is embedded as a function that takes the
  state of both stores and returns the new state together with either the
  exception it raised or the value it returned.
\<close>

subsection \<open>Exceptions and responses\<close>

text \<open>
  \<open>HTTPException status detail\<close> is FastAPI's exception, \<open>ValueError\<close> is what
  Python's \<open>int(str)\<close> raises on a malformed literal, and \<open>OperationalError\<close>
  stands for whatever psycopg2 raises when the database cannot be reached.
\<close>

datatype error = HTTPException nat string | ValueError | OperationalError

subsection \<open>Rows\<close>

text \<open>
  A row of \<open>users\<close>, restricted to the columns main.py names.  \<open>user_info\<close> holds
  the six columns that \<open>get_user_by_id\<close> selects; \<open>user_row\<close> adds the
  soft-delete marker.  The columns \<open>id\<close> and \<open>group\<close> are written \<open>id'\<close> and
  \<open>group'\<close>.  Python integers are unbounded, so \<open>quota\<close> and \<open>used_quota\<close> are
  of type \<open>int\<close>; the width of the PostgreSQL columns is not declared anywhere
  in main.py.
\<close>

record user_info =
  id' :: int
  username :: string
  display_name :: string
  group' :: string
  quota :: int
  used_quota :: int

record user_row = user_info +
  deleted_at :: "string option"

text \<open>
  A row of \<open>admin_sessions\<close>.  The surrogate key \<open>id\<close> is never read by main.py
  and is left out.
\<close>

record session_row =
  token :: string
  created_at :: string

subsection \<open>What the job prints\<close>

text \<open>
  \<open>daily_reset\<close> reports through \<open>print\<close>.  A printed line is kept as the values
  it is formatted from; the timestamps of \<open>datetime.now()\<close> are left out.
\<close>

datatype log_line =
    Started string
  | Found nat
  | ResetDone string int int
  | Finished
  | Failed error

subsection \<open>The state\<close>

text \<open>
  \<open>settings\<close> has \<open>key\<close> as its primary key, so the table is a map.
  \<open>ADMIN_PASSWORD\<close> is the module constant read from the environment at start.
  \<open>pg_faults\<close> is the schedule of the database's availability: the n-th call
  of \<open>postgres_conn\<close> from now on raises when the n-th entry is \<open>True\<close>, and
  every call beyond the end of the list succeeds.  The SQLite file is local
  and its statements are taken to succeed.  \<open>stdout\<close> collects what \<open>print\<close>
  wrote.
\<close>

record world =
  ADMIN_PASSWORD :: string
  admin_sessions :: "session_row list"
  settings :: "string \<rightharpoonup> string"
  users :: "user_row list"
  pg_faults :: "bool list"
  stdout :: "log_line list"

type_synonym 'a outcome = "world \<times> (error + 'a)"

definition print :: "log_line \<Rightarrow> world \<Rightarrow> world" where
  "print l w = w\<lparr>stdout := stdout w @ [l]\<rparr>"

subsection \<open>Python's \<open>str\<close> and \<open>int\<close> on decimal literals\<close>

fun nat_to_dec :: "nat \<Rightarrow> string" where
  "nat_to_dec n =
     (if n < 10 then [''0123456789'' ! n]
      else nat_to_dec (n div 10) @ [''0123456789'' ! (n mod 10)])"

declare nat_to_dec.simps [simp del]

definition py_str :: "int \<Rightarrow> string" where
  "py_str i = (if i < 0 then CHR ''-'' # nat_to_dec (nat (- i)) else nat_to_dec (nat i))"

definition digit_of :: "char \<Rightarrow> nat option" where
  "digit_of c =
     map_of [(CHR ''0'', 0), (CHR ''1'', 1), (CHR ''2'', 2), (CHR ''3'', 3), (CHR ''4'', 4),
             (CHR ''5'', 5), (CHR ''6'', 6), (CHR ''7'', 7), (CHR ''8'', 8), (CHR ''9'', 9)] c"

text \<open>
  A character of a \<open>string\<close> stands for the code point of the same number, so
  the strings are the texts over the code points 0 to 255.  The characters
  \<open>int\<close> strips from both ends of such a text: tab, LF, VT, FF, CR and the
  space, and beyond ASCII the next-line character 0x85 and the no-break space
  0xA0.  (The separators 0x1C to 0x1F are not stripped: \<open>int\<close> raises on them.)
\<close>

definition is_space :: "char \<Rightarrow> bool" where
  "is_space c = (of_char c \<in> {9, 10, 11, 12, 13, 32, 133, 160 :: nat})"

definition strip :: "string \<Rightarrow> string" where
  "strip s = rev (dropWhile is_space (rev (dropWhile is_space s)))"

text \<open>
  The digits after the sign: decimal digits, where a single underscore may
  stand between two digits.
\<close>

fun parse_digits :: "string \<Rightarrow> nat \<Rightarrow> nat option" where
  "parse_digits [] acc = Some acc"
| "parse_digits (c # cs) acc =
     (case digit_of c of
        Some d \<Rightarrow> parse_digits cs (acc * 10 + d)
      | None \<Rightarrow>
          if c = CHR ''_'' \<and> (case cs of [] \<Rightarrow> False | c' # _ \<Rightarrow> digit_of c' \<noteq> None)
          then parse_digits cs acc else None)"

definition parse_unsigned :: "string \<Rightarrow> nat option" where
  "parse_unsigned s =
     (case s of [] \<Rightarrow> None
      | c # _ \<Rightarrow> if digit_of c = None then None else parse_digits s 0)"

text \<open>
  \<open>py_int s\<close> is \<open>int(s)\<close>; \<open>None\<close> is the \<open>ValueError\<close>.  The interpreter's
  limit on the number of digits of a conversion is not modelled.
\<close>

definition py_int :: "string \<Rightarrow> int option" where
  "py_int s =
     (case strip s of
        [] \<Rightarrow> None
      | c # cs \<Rightarrow>
          if c = CHR ''-'' then map_option (\<lambda>n. - int n) (parse_unsigned cs)
          else if c = CHR ''+'' then map_option int (parse_unsigned cs)
          else map_option int (parse_unsigned (c # cs)))"

subsection \<open>Settings helpers\<close>

definition get_setting :: "string \<Rightarrow> string \<Rightarrow> world \<Rightarrow> string" where
  "get_setting key dflt w = (case settings w key of Some v \<Rightarrow> v | None \<Rightarrow> dflt)"

definition set_setting :: "string \<Rightarrow> string \<Rightarrow> world \<Rightarrow> world" where
  "set_setting key v w = w\<lparr>settings := (settings w)(key \<mapsto> v)\<rparr>"

subsection \<open>PostgreSQL helpers\<close>

text \<open>
  \<open>postgres_conn\<close> consumes one entry of the availability schedule.  A handler
  of main.py opens one connection, runs one statement and commits; when the
  connection raises, the statement has not run.
\<close>

definition postgres_conn :: "world \<Rightarrow> unit outcome" where
  "postgres_conn w =
     (case pg_faults w of
        [] \<Rightarrow> (w, Inr ())
      | f # fs \<Rightarrow> (w\<lparr>pg_faults := fs\<rparr>, if f then Inl OperationalError else Inr ()))"

text \<open>The \<open>WHERE id = %s AND "deleted_at" IS NULL\<close> of the four statements.\<close>

definition live_with_id :: "int \<Rightarrow> user_row \<Rightarrow> bool" where
  "live_with_id user_id u = (id' u = user_id \<and> deleted_at u = None)"

text \<open>
  The four statements, as functions of the table.  An \<open>UPDATE\<close> rewrites every
  row its \<open>WHERE\<close> selects; \<open>SELECT ... LIMIT 1\<close> with \<open>fetchone()\<close> gives the
  first selected row, if any.
\<close>

definition sql_reset_quota :: "int \<Rightarrow> int \<Rightarrow> user_row list \<Rightarrow> user_row list" where
  "sql_reset_quota user_id new_quota us =
     map (\<lambda>u. if live_with_id user_id u then u\<lparr>quota := new_quota, used_quota := 0\<rparr> else u) us"

definition sql_update_group :: "int \<Rightarrow> string \<Rightarrow> user_row list \<Rightarrow> user_row list" where
  "sql_update_group user_id grp us =
     map (\<lambda>u. if live_with_id user_id u then u\<lparr>group' := grp\<rparr> else u) us"

definition sql_increment_quota :: "int \<Rightarrow> int \<Rightarrow> user_row list \<Rightarrow> user_row list" where
  "sql_increment_quota user_id delta us =
     map (\<lambda>u. if live_with_id user_id u then u\<lparr>quota := quota u + delta\<rparr> else u) us"

definition sql_select_user :: "int \<Rightarrow> user_row list \<Rightarrow> user_info option" where
  "sql_select_user user_id us = map_option user_info.truncate (find (live_with_id user_id) us)"

definition reset_user_quota :: "int \<Rightarrow> int \<Rightarrow> world \<Rightarrow> unit outcome" where
  "reset_user_quota user_id new_quota w =
     (case postgres_conn w of
        (w', Inl e) \<Rightarrow> (w', Inl e)
      | (w', Inr _) \<Rightarrow> (w'\<lparr>users := sql_reset_quota user_id new_quota (users w')\<rparr>, Inr ()))"

definition get_user_by_id :: "int \<Rightarrow> world \<Rightarrow> user_info outcome" where
  "get_user_by_id user_id w =
     (case postgres_conn w of
        (w', Inl e) \<Rightarrow> (w', Inl e)
      | (w', Inr _) \<Rightarrow>
          (case sql_select_user user_id (users w') of
             None \<Rightarrow> (w', Inl (HTTPException 404 ''User not found or has been deleted''))
           | Some row \<Rightarrow> (w', Inr row)))"

definition update_user_group :: "int \<Rightarrow> string \<Rightarrow> world \<Rightarrow> unit outcome" where
  "update_user_group user_id grp w =
     (case postgres_conn w of
        (w', Inl e) \<Rightarrow> (w', Inl e)
      | (w', Inr _) \<Rightarrow> (w'\<lparr>users := sql_update_group user_id grp (users w')\<rparr>, Inr ()))"

definition increment_user_quota :: "int \<Rightarrow> int \<Rightarrow> world \<Rightarrow> unit outcome" where
  "increment_user_quota user_id delta w =
     (case postgres_conn w of
        (w', Inl e) \<Rightarrow> (w', Inl e)
      | (w', Inr _) \<Rightarrow> (w'\<lparr>users := sql_increment_quota user_id delta (users w')\<rparr>, Inr ()))"

subsection \<open>Payloads, requests, responses\<close>

text \<open>
  The pydantic classes.  FastAPI checks a body against its class, and a path
  parameter against its type, before it calls the handler; a handler below
  takes the checked value.
\<close>

datatype AdminLoginPayload = AdminLoginPayload string
datatype UserGroupUpdatePayload = UserGroupUpdatePayload int string
datatype UserQuotaUpdatePayload = UserQuotaUpdatePayload int int
datatype UserQuotaResetPayload = UserQuotaResetPayload int int
datatype DailyResetSettingsPayload = DailyResetSettingsPayload int int

text \<open>Of a request, main.py reads the \<open>Authorization\<close> header only.\<close>

record request =
  authorization :: "string option"

text \<open>
  The JSON bodies: \<open>{token}\<close>, \<open>{vip_quota, default_quota}\<close>, \<open>{ok, message}\<close>,
  \<open>{ok}\<close> and the user's six columns.
\<close>

datatype response =
    TokenBody string
  | SettingsBody int int
  | OkMessage bool string
  | Ok bool
  | UserBody user_info

subsection \<open>Admin authentication\<close>

definition startswith :: "string \<Rightarrow> string \<Rightarrow> bool" where
  "startswith s p = (take (length p) s = p)"

text \<open>
  The query \<open>SELECT 1 FROM admin_sessions WHERE token=?\<close> followed by
  \<open>fetchone()\<close>: the first matching row, if there is one.
\<close>

definition is_valid_token :: "string \<Rightarrow> world \<Rightarrow> bool" where
  "is_valid_token t w = (find (\<lambda>row. token row = t) (admin_sessions w) \<noteq> None)"

definition require_admin_auth :: "request \<Rightarrow> world \<Rightarrow> error + unit" where
  "require_admin_auth request w =
     (let auth_header = (case authorization request of Some h \<Rightarrow> h | None \<Rightarrow> [])
      in if \<not> startswith auth_header ''Bearer ''
         then Inl (HTTPException 403 ''Admin access required'')
         else let t = drop 7 auth_header
              in if \<not> is_valid_token t w
                 then Inl (HTTPException 403 ''Admin access required'')
                 else Inr ())"

subsection \<open>The reset job\<close>

text \<open>
  \<open>SELECT id, "group" FROM users WHERE "group" IN ('vip', 'default') AND
  "deleted_at" IS NULL\<close>, in the order of the table.
\<close>

definition users_to_reset :: "user_row list \<Rightarrow> (int \<times> string) list" where
  "users_to_reset us =
     map (\<lambda>u. (id' u, group' u))
       (filter (\<lambda>u. (group' u = ''vip'' \<or> group' u = ''default'') \<and> deleted_at u = None) us)"

text \<open>\<open>vip_quota if user_group == 'vip' else default_quota\<close>\<close>

definition quota_to_set :: "int \<Rightarrow> int \<Rightarrow> string \<Rightarrow> int" where
  "quota_to_set vip_quota default_quota user_group =
     (if user_group = ''vip'' then vip_quota else default_quota)"

text \<open>The \<open>for\<close> loop over the fetched rows; an exception leaves the loop.\<close>

fun reset_loop :: "(int \<times> string) list \<Rightarrow> int \<Rightarrow> int \<Rightarrow> world \<Rightarrow> unit outcome" where
  "reset_loop [] vip_quota default_quota w = (w, Inr ())"
| "reset_loop ((user_id, user_group) # rest) vip_quota default_quota w =
     (case reset_user_quota user_id (quota_to_set vip_quota default_quota user_group) w of
        (w', Inl e) \<Rightarrow> (w', Inl e)
      | (w', Inr _) \<Rightarrow>
          reset_loop rest vip_quota default_quota
            (print (ResetDone user_group user_id
                      (quota_to_set vip_quota default_quota user_group)) w'))"

text \<open>The body of the \<open>try\<close>.\<close>

definition daily_reset_body :: "world \<Rightarrow> unit outcome" where
  "daily_reset_body w =
     (case py_int (get_setting ''daily_reset_quota_vip'' ''1000000'' w) of
        None \<Rightarrow> (w, Inl ValueError)
      | Some vip_quota \<Rightarrow>
     (case py_int (get_setting ''daily_reset_quota_default'' ''50000'' w) of
        None \<Rightarrow> (w, Inl ValueError)
      | Some default_quota \<Rightarrow>
     (case postgres_conn w of
        (w1, Inl e) \<Rightarrow> (w1, Inl e)
      | (w1, Inr _) \<Rightarrow>
          (let rows = users_to_reset (users w1);
               w2 = print (Found (length rows)) w1
           in case reset_loop rows vip_quota default_quota w2 of
                (w3, Inl e) \<Rightarrow> (w3, Inl e)
              | (w3, Inr _) \<Rightarrow> (print Finished w3, Inr ())))))"

text \<open>The job: \<open>except Exception\<close> prints the exception and returns.\<close>

definition daily_reset :: "string \<Rightarrow> world \<Rightarrow> world" where
  "daily_reset triggered_by w =
     (case daily_reset_body (print (Started triggered_by) w) of
        (w', Inl e) \<Rightarrow> print (Failed e) w'
      | (w', Inr _) \<Rightarrow> w')"

subsection \<open>Routes\<close>

text \<open>
  \<open>admin_login\<close> takes the sixteen bytes of \<open>os.urandom(16)\<close> and the text of
  \<open>datetime.datetime.utcnow().isoformat()\<close> as arguments.
\<close>

definition hex_of_byte :: "8 word \<Rightarrow> string" where
  "hex_of_byte b =
     [''0123456789abcdef'' ! (unat b div 16), ''0123456789abcdef'' ! (unat b mod 16)]"

definition hex :: "8 word list \<Rightarrow> string" where
  "hex bs = concat (map hex_of_byte bs)"

fun admin_login :: "AdminLoginPayload \<Rightarrow> 8 word list \<Rightarrow> string \<Rightarrow> world \<Rightarrow> response outcome" where
  "admin_login (AdminLoginPayload password) urandom16 utcnow w =
     (if password \<noteq> ADMIN_PASSWORD w then (w, Inl (HTTPException 401 ''Invalid admin password''))
      else let t = hex urandom16
           in (w\<lparr>admin_sessions := admin_sessions w @ [\<lparr>token = t, created_at = utcnow\<rparr>]\<rparr>,
               Inr (TokenBody t)))"

definition get_daily_reset_settings :: "request \<Rightarrow> world \<Rightarrow> response outcome" where
  "get_daily_reset_settings request w =
     (case require_admin_auth request w of
        Inl e \<Rightarrow> (w, Inl e)
      | Inr _ \<Rightarrow>
          (case py_int (get_setting ''daily_reset_quota_vip'' ''1000000'' w) of
             None \<Rightarrow> (w, Inl ValueError)
           | Some vip_quota \<Rightarrow>
               (case py_int (get_setting ''daily_reset_quota_default'' ''50000'' w) of
                  None \<Rightarrow> (w, Inl ValueError)
                | Some default_quota \<Rightarrow> (w, Inr (SettingsBody vip_quota default_quota)))))"

fun set_daily_reset_settings ::
  "DailyResetSettingsPayload \<Rightarrow> request \<Rightarrow> world \<Rightarrow> response outcome" where
  "set_daily_reset_settings (DailyResetSettingsPayload vip_quota default_quota) request w =
     (case require_admin_auth request w of
        Inl e \<Rightarrow> (w, Inl e)
      | Inr _ \<Rightarrow>
          if vip_quota < 0 \<or> default_quota < 0
          then (w, Inl (HTTPException 400 ''Quota cannot be negative''))
          else (set_setting ''daily_reset_quota_default'' (py_str default_quota)
                  (set_setting ''daily_reset_quota_vip'' (py_str vip_quota) w),
                Inr (OkMessage True ''Settings saved successfully.'')))"

definition trigger_daily_reset_now :: "request \<Rightarrow> world \<Rightarrow> response outcome" where
  "trigger_daily_reset_now request w =
     (case require_admin_auth request w of
        Inl e \<Rightarrow> (w, Inl e)
      | Inr _ \<Rightarrow>
          (daily_reset ''manual'' w,
           Inr (OkMessage True ''Immediate reset task has been triggered successfully.'')))"

definition get_user_info :: "int \<Rightarrow> request \<Rightarrow> world \<Rightarrow> response outcome" where
  "get_user_info user_id request w =
     (case require_admin_auth request w of
        Inl e \<Rightarrow> (w, Inl e)
      | Inr _ \<Rightarrow>
          (case get_user_by_id user_id w of
             (w', Inl e) \<Rightarrow> (w', Inl e)
           | (w', Inr info) \<Rightarrow> (w', Inr (UserBody info))))"

fun update_user_group_api ::
  "UserGroupUpdatePayload \<Rightarrow> request \<Rightarrow> world \<Rightarrow> response outcome" where
  "update_user_group_api (UserGroupUpdatePayload user_id grp) request w =
     (case require_admin_auth request w of
        Inl e \<Rightarrow> (w, Inl e)
      | Inr _ \<Rightarrow>
          (case update_user_group user_id grp w of
             (w', Inl e) \<Rightarrow> (w', Inl e)
           | (w', Inr _) \<Rightarrow> (w', Inr (Ok True))))"

fun increment_quota_api ::
  "UserQuotaUpdatePayload \<Rightarrow> request \<Rightarrow> world \<Rightarrow> response outcome" where
  "increment_quota_api (UserQuotaUpdatePayload user_id delta) request w =
     (case require_admin_auth request w of
        Inl e \<Rightarrow> (w, Inl e)
      | Inr _ \<Rightarrow>
          (case increment_user_quota user_id delta w of
             (w', Inl e) \<Rightarrow> (w', Inl e)
           | (w', Inr _) \<Rightarrow> (w', Inr (Ok True))))"

fun reset_quota_api ::
  "UserQuotaResetPayload \<Rightarrow> request \<Rightarrow> world \<Rightarrow> response outcome" where
  "reset_quota_api (UserQuotaResetPayload user_id new_quota) request w =
     (case require_admin_auth request w of
        Inl e \<Rightarrow> (w, Inl e)
      | Inr _ \<Rightarrow>
          (case reset_user_quota user_id new_quota w of
             (w', Inl e) \<Rightarrow> (w', Inl e)
           | (w', Inr _) \<Rightarrow> (w', Inr (Ok True))))"

subsection \<open>The route table and the scheduler\<close>

text \<open>
  One constructor for each decorated route of the JSON API, carrying what the
  handler receives besides the request: the validated payload or the path
  parameter, and for the login the random bytes and the clock reading.
\<close>

datatype api_call =
    PostLogin AdminLoginPayload "8 word list" string
  | GetDailyResetSettings
  | PostDailyResetSettings DailyResetSettingsPayload
  | PostTriggerDailyReset
  | GetUser int
  | PostUserGroup UserGroupUpdatePayload
  | PostQuotaIncrement UserQuotaUpdatePayload
  | PostQuotaReset UserQuotaResetPayload

fun handle :: "api_call \<Rightarrow> request \<Rightarrow> world \<Rightarrow> response outcome" where
  "handle (PostLogin payload urandom16 utcnow) request w = admin_login payload urandom16 utcnow w"
| "handle GetDailyResetSettings request w = get_daily_reset_settings request w"
| "handle (PostDailyResetSettings payload) request w = set_daily_reset_settings payload request w"
| "handle PostTriggerDailyReset request w = trigger_daily_reset_now request w"
| "handle (GetUser user_id) request w = get_user_info user_id request w"
| "handle (PostUserGroup payload) request w = update_user_group_api payload request w"
| "handle (PostQuotaIncrement payload) request w = increment_quota_api payload request w"
| "handle (PostQuotaReset payload) request w = reset_quota_api payload request w"

text \<open>
  What happens to the service: a request arrives, or the scheduler's cron
  trigger fires \<open>daily_reset\<close> with its default argument.
\<close>

datatype event = Http api_call request | Cron

fun run :: "event list \<Rightarrow> world \<Rightarrow> world \<times> (error + response) list" where
  "run [] w = (w, [])"
| "run (Http call request # evs) w =
     (case handle call request w of
        (w', out) \<Rightarrow> (case run evs w' of (w'', outs) \<Rightarrow> (w'', out # outs)))"
| "run (Cron # evs) w = run evs (daily_reset ''scheduled'' w)"

text \<open>
  The column ``Auth'' of the specification's table of endpoints: every JSON
  route except the login is marked ``Bearer''.
\<close>

fun spec_protected :: "api_call \<Rightarrow> bool" where
  "spec_protected (PostLogin payload urandom16 utcnow) = False"
| "spec_protected call = True"

subsection \<open>Notions used in the statements\<close>

text \<open>
  \<open>next_conn_fails\<close>: the next call of \<open>postgres_conn\<close> raises.  \<open>store_up\<close>: no
  call of \<open>postgres_conn\<close> raises from now on.
\<close>

definition next_conn_fails :: "world \<Rightarrow> bool" where
  "next_conn_fails w = (case pg_faults w of [] \<Rightarrow> False | f # _ \<Rightarrow> f)"

definition store_up :: "world \<Rightarrow> bool" where
  "store_up w = (True \<notin> set (pg_faults w))"

text \<open>
  What one pass of the loop does to a single row, and what the loop over
  \<open>rows\<close> does to the table when every statement runs.
\<close>

definition row_reset :: "int \<Rightarrow> int \<Rightarrow> user_row \<Rightarrow> int \<times> string \<Rightarrow> user_row" where
  "row_reset V D u c =
     (if live_with_id (fst c) u then u\<lparr>quota := quota_to_set V D (snd c), used_quota := 0\<rparr> else u)"

definition apply_resets :: "(int \<times> string) list \<Rightarrow> int \<Rightarrow> int \<Rightarrow> user_row list \<Rightarrow> user_row list" where
  "apply_resets rows V D us = foldl (\<lambda>us c. sql_reset_quota (fst c) (quota_to_set V D (snd c)) us) us rows"

text \<open>
  The job as its description has it, row by row: a live row of the group
  \<open>vip\<close> gets the VIP quota, a live row of the group \<open>default\<close> gets the default
  quota, both with \<open>used_quota\<close> zero, and every other row stays as it is.
\<close>

definition tier_reset :: "int \<Rightarrow> int \<Rightarrow> user_row \<Rightarrow> user_row" where
  "tier_reset V D u =
     (if deleted_at u = None \<and> group' u = ''vip'' then u\<lparr>quota := V, used_quota := 0\<rparr>
      else if deleted_at u = None \<and> group' u = ''default'' then u\<lparr>quota := D, used_quota := 0\<rparr>
      else u)"

text \<open>
  An example state: a \<open>vip\<close> user, a \<open>default\<close> user, an \<open>enterprise\<close> user and
  a soft-deleted \<open>vip\<close> user, with the reset quotas 100000 and 20000 and one
  admin session.  \<open>unset_world\<close> is the same state with no setting stored, and
  \<open>faulty_world\<close> the same state with a database that fails at the third
  connection.  In \<open>garbled_world\<close> the stored VIP quota is the separator 0x1C
  followed by \<open>7\<close>, which \<open>int\<close> does not accept.
\<close>

definition user_A :: user_row where
  "user_A = \<lparr>id' = 1, username = ''a'', display_name = ''A'', group' = ''vip'',
              quota = 0, used_quota = 7, deleted_at = None\<rparr>"

definition user_B :: user_row where
  "user_B = \<lparr>id' = 2, username = ''b'', display_name = ''B'', group' = ''default'',
              quota = 0, used_quota = 8, deleted_at = None\<rparr>"

definition user_C :: user_row where
  "user_C = \<lparr>id' = 3, username = ''c'', display_name = ''C'', group' = ''enterprise'',
              quota = 0, used_quota = 9, deleted_at = None\<rparr>"

definition user_D :: user_row where
  "user_D = \<lparr>id' = 4, username = ''d'', display_name = ''D'', group' = ''vip'',
              quota = 5, used_quota = 6, deleted_at = Some ''2024-05-01 10:00:00''\<rparr>"

definition example_world :: world where
  "example_world =
     \<lparr>ADMIN_PASSWORD = ''admin123'',
      admin_sessions = [\<lparr>token = ''00ff'', created_at = ''2024-06-01T00:00:00''\<rparr>],
      settings = [''daily_reset_quota_vip'' \<mapsto> ''100000'',
                  ''daily_reset_quota_default'' \<mapsto> ''20000''],
      users = [user_A, user_B, user_C, user_D],
      pg_faults = [],
      stdout = []\<rparr>"

definition example_bytes :: "8 word list" where
  "example_bytes = [0x3a, 0x7f, 0x00, 0xff, 0x10, 0x9c, 0xe2, 0x41,
                    0x5b, 0xd8, 0x06, 0xa7, 0xc3, 0x2e, 0x94, 0xb0]"

definition example_events :: "event list" where
  "example_events =
     [Http (PostLogin (AdminLoginPayload ''letmein'') example_bytes ''2024-06-02T08:00:00'')
        \<lparr>authorization = None\<rparr>,
      Cron,
      Http (PostLogin (AdminLoginPayload ''admin123'') example_bytes ''2024-06-02T08:00:05'')
        \<lparr>authorization = None\<rparr>]"

definition unset_world :: world where
  "unset_world = example_world\<lparr>settings := Map.empty\<rparr>"

definition garbled_world :: world where
  "garbled_world =
     example_world\<lparr>settings := [''daily_reset_quota_vip'' \<mapsto> [CHR 0x1C, CHR ''7'']]\<rparr>"

definition faulty_world :: world where
  "faulty_world = example_world\<lparr>pg_faults := [False, False, True]\<rparr>"

text \<open>
  \<open>resets_before_fault n fs\<close>: of \<open>n\<close> connections opened one after the other
  under the schedule \<open>fs\<close>, the number established before the first that fails
  (all \<open>n\<close> when none fails).  \<open>resets_done w\<close>: that number for the rows the job
  selects in \<open>w\<close>, whose connections come after the one of the \<open>SELECT\<close>.
  \<open>reset_line\<close> is the line the loop prints for a row, and \<open>job_quotas\<close> the
  two quotas the job reads, when both settings parse.
\<close>

fun resets_before_fault :: "nat \<Rightarrow> bool list \<Rightarrow> nat" where
  "resets_before_fault 0 fs = 0"
| "resets_before_fault (Suc n) [] = Suc n"
| "resets_before_fault (Suc n) (f # fs) = (if f then 0 else Suc (resets_before_fault n fs))"

definition resets_done :: "world \<Rightarrow> nat" where
  "resets_done w =
     resets_before_fault (length (users_to_reset (users w))) (tl (pg_faults w))"

definition reset_line :: "int \<Rightarrow> int \<Rightarrow> int \<times> string \<Rightarrow> log_line" where
  "reset_line V D c = ResetDone (snd c) (fst c) (quota_to_set V D (snd c))"

definition job_quotas :: "world \<Rightarrow> (int \<times> int) option" where
  "job_quotas w =
     (case py_int (get_setting ''daily_reset_quota_vip'' ''1000000'' w) of
        None \<Rightarrow> None
      | Some V \<Rightarrow>
          (case py_int (get_setting ''daily_reset_quota_default'' ''50000'' w) of
             None \<Rightarrow> None
           | Some D \<Rightarrow> Some (V, D)))"

section \<open>Properties\<close>

subsection \<open>The database helpers, one case per outcome of the connection\<close>

lemma postgres_conn_eq:
  "postgres_conn w =
     (w\<lparr>pg_faults := tl (pg_faults w)\<rparr>,
      if next_conn_fails w then Inl OperationalError else Inr ())"
  by (cases "pg_faults w") (simp_all add: postgres_conn_def next_conn_fails_def)

lemma reset_user_quota_eq:
  "reset_user_quota i q w =
     (if next_conn_fails w then (w\<lparr>pg_faults := tl (pg_faults w)\<rparr>, Inl OperationalError)
      else (w\<lparr>pg_faults := tl (pg_faults w), users := sql_reset_quota i q (users w)\<rparr>, Inr ()))"
  by (simp add: reset_user_quota_def postgres_conn_eq)

lemma update_user_group_eq:
  "update_user_group i g w =
     (if next_conn_fails w then (w\<lparr>pg_faults := tl (pg_faults w)\<rparr>, Inl OperationalError)
      else (w\<lparr>pg_faults := tl (pg_faults w), users := sql_update_group i g (users w)\<rparr>, Inr ()))"
  by (simp add: update_user_group_def postgres_conn_eq)

lemma increment_user_quota_eq:
  "increment_user_quota i d w =
     (if next_conn_fails w then (w\<lparr>pg_faults := tl (pg_faults w)\<rparr>, Inl OperationalError)
      else (w\<lparr>pg_faults := tl (pg_faults w), users := sql_increment_quota i d (users w)\<rparr>, Inr ()))"
  by (simp add: increment_user_quota_def postgres_conn_eq)

lemma get_user_by_id_eq:
  "get_user_by_id i w =
     (w\<lparr>pg_faults := tl (pg_faults w)\<rparr>,
      if next_conn_fails w then Inl OperationalError
      else case sql_select_user i (users w) of
             None \<Rightarrow> Inl (HTTPException 404 ''User not found or has been deleted'')
           | Some row \<Rightarrow> Inr row)"
  by (simp add: get_user_by_id_def postgres_conn_eq split: option.splits)

lemma store_up_tl: "store_up w \<Longrightarrow> store_up (w\<lparr>pg_faults := tl (pg_faults w)\<rparr>)"
  by (cases "pg_faults w") (simp_all add: store_up_def)

lemma store_up_next: "store_up w \<Longrightarrow> \<not> next_conn_fails w"
  by (cases "pg_faults w") (auto simp: store_up_def next_conn_fails_def)

lemma store_up_print [simp]: "store_up (print l w) = store_up w"
  by (simp add: store_up_def print_def)

lemma apply_resets_pointwise:
  "apply_resets rows V D us = map (\<lambda>u. foldl (row_reset V D) u rows) us"
proof (induction rows arbitrary: us)
  case Nil
  then show ?case by (simp add: apply_resets_def)
next
  case (Cons c rows)
  have "apply_resets (c # rows) V D us =
        apply_resets rows V D (sql_reset_quota (fst c) (quota_to_set V D (snd c)) us)"
    by (simp add: apply_resets_def)
  also have "\<dots> = map (\<lambda>u. foldl (row_reset V D) u rows)
                     (sql_reset_quota (fst c) (quota_to_set V D (snd c)) us)"
    by (rule Cons.IH)
  also have "\<dots> = map (\<lambda>u. foldl (row_reset V D) u (c # rows)) us"
    by (simp add: sql_reset_quota_def row_reset_def)
  finally show ?case .
qed

lemma reset_loop_up:
  assumes "store_up w"
  shows "\<exists>w'. reset_loop rows V D w = (w', Inr ()) \<and>
           users w' = apply_resets rows V D (users w) \<and>
           store_up w' \<and> settings w' = settings w \<and>
           admin_sessions w' = admin_sessions w \<and> ADMIN_PASSWORD w' = ADMIN_PASSWORD w"
  using assms
proof (induction rows arbitrary: w)
  case Nil
  then show ?case by (simp add: apply_resets_def)
next
  case (Cons c rows)
  obtain i g where c: "c = (i, g)" by (cases c)
  let ?w1 = "print (ResetDone g i (quota_to_set V D g))
              (w\<lparr>pg_faults := tl (pg_faults w), users := sql_reset_quota i (quota_to_set V D g) (users w)\<rparr>)"
  have up1: "store_up ?w1"
    using Cons.prems by (cases "pg_faults w") (simp_all add: store_up_def print_def)
  from Cons.IH [OF up1] obtain w' where
    w': "reset_loop rows V D ?w1 = (w', Inr ())"
        "users w' = apply_resets rows V D (users ?w1)" "store_up w'"
        "settings w' = settings ?w1" "admin_sessions w' = admin_sessions ?w1"
        "ADMIN_PASSWORD w' = ADMIN_PASSWORD ?w1"
    by blast
  have "reset_loop (c # rows) V D w = (w', Inr ())"
    using w'(1) store_up_next [OF Cons.prems] by (simp add: c reset_user_quota_eq)
  moreover have "users w' = apply_resets (c # rows) V D (users w)"
    using w'(2) by (simp add: c apply_resets_def print_def)
  ultimately show ?case
    using w'(3-6) by (simp add: print_def)
qed


lemma foldl_row_reset_deleted:
  "deleted_at u \<noteq> None \<Longrightarrow> foldl (row_reset V D) u rows = u"
  by (induction rows) (auto simp: row_reset_def live_with_id_def)

lemma foldl_row_reset_live:
  assumes "\<forall>c \<in> set rows. fst c = id' u \<longrightarrow> quota_to_set V D (snd c) = Q"
    and "deleted_at u = None"
  shows "foldl (row_reset V D) u rows =
           (if id' u \<in> fst ` set rows then u\<lparr>quota := Q, used_quota := 0\<rparr> else u)"
  using assms
proof (induction rows arbitrary: u)
  case Nil
  then show ?case by simp
next
  case (Cons c rows)
  show ?case
  proof (cases "fst c = id' u")
    case True
    let ?u1 = "u\<lparr>quota := Q, used_quota := 0\<rparr>"
    have step: "row_reset V D u c = ?u1"
      using True Cons.prems by (simp add: row_reset_def live_with_id_def)
    have "foldl (row_reset V D) ?u1 rows =
            (if id' ?u1 \<in> fst ` set rows then ?u1\<lparr>quota := Q, used_quota := 0\<rparr> else ?u1)"
      using Cons.prems by (intro Cons.IH) simp_all
    then show ?thesis using True step by simp
  next
    case False
    have step: "row_reset V D u c = u"
      using False by (simp add: row_reset_def live_with_id_def)
    have "foldl (row_reset V D) u rows =
            (if id' u \<in> fst ` set rows then u\<lparr>quota := Q, used_quota := 0\<rparr> else u)"
      using Cons.prems by (intro Cons.IH) simp_all
    then show ?thesis using False step by auto
  qed
qed

lemma users_to_reset_iff:
  "c \<in> set (users_to_reset us) \<longleftrightarrow>
     (\<exists>u \<in> set us. c = (id' u, group' u) \<and>
        (group' u = ''vip'' \<or> group' u = ''default'') \<and> deleted_at u = None)"
  by (auto simp: users_to_reset_def)

lemma row_after_job:
  assumes pk: "distinct (map id' us)" and u: "u \<in> set us"
  shows "foldl (row_reset V D) u (users_to_reset us) = tier_reset V D u"
proof (cases "deleted_at u = None")
  case False
  then show ?thesis by (auto simp: foldl_row_reset_deleted tier_reset_def)
next
  case live: True
  have inj: "inj_on id' (set us)" using pk by (simp add: distinct_map)
  have same: "snd c = group' u \<and> (group' u = ''vip'' \<or> group' u = ''default'')"
    if "c \<in> set (users_to_reset us)" "fst c = id' u" for c
  proof -
    from that(1) obtain u' where u': "u' \<in> set us" "c = (id' u', group' u')"
        "group' u' = ''vip'' \<or> group' u' = ''default''"
      by (auto simp: users_to_reset_iff)
    with that(2) inj u have "u' = u" by (auto dest: inj_onD)
    with u' show ?thesis by simp
  qed
  have fold: "foldl (row_reset V D) u (users_to_reset us) =
          (if id' u \<in> fst ` set (users_to_reset us)
           then u\<lparr>quota := quota_to_set V D (group' u), used_quota := 0\<rparr> else u)"
    using same live by (intro foldl_row_reset_live) auto
  show ?thesis
  proof (cases "group' u = ''vip'' \<or> group' u = ''default''")
    case True
    with live u have "(id' u, group' u) \<in> set (users_to_reset us)"
      by (auto simp: users_to_reset_iff)
    then have "id' u \<in> fst ` set (users_to_reset us)" by force
    with fold True live show ?thesis
      by (auto simp: tier_reset_def quota_to_set_def)
  next
    case False
    have "id' u \<notin> fst ` set (users_to_reset us)"
    proof
      assume "id' u \<in> fst ` set (users_to_reset us)"
      then obtain c where "c \<in> set (users_to_reset us)" "fst c = id' u" by force
      with same [of c] False show False by simp
    qed
    with fold False show ?thesis by (simp add: tier_reset_def)
  qed
qed

lemma apply_resets_tier:
  "distinct (map id' us) \<Longrightarrow>
     apply_resets (users_to_reset us) V D us = map (tier_reset V D) us"
  by (simp add: apply_resets_pointwise row_after_job cong: map_cong)

lemma daily_reset_body_up:
  assumes "store_up w"
    and "py_int (get_setting ''daily_reset_quota_vip'' ''1000000'' w) = Some V"
    and "py_int (get_setting ''daily_reset_quota_default'' ''50000'' w) = Some D"
  shows "\<exists>w'. daily_reset_body w = (w', Inr ()) \<and>
           users w' = apply_resets (users_to_reset (users w)) V D (users w) \<and>
           store_up w' \<and> settings w' = settings w \<and>
           admin_sessions w' = admin_sessions w \<and> ADMIN_PASSWORD w' = ADMIN_PASSWORD w"
proof -
  let ?rows = "users_to_reset (users w)"
  let ?w2 = "print (Found (length ?rows)) (w\<lparr>pg_faults := tl (pg_faults w)\<rparr>)"
  have up2: "store_up ?w2" using assms(1) by (simp add: store_up_tl)
  from reset_loop_up [OF up2, of ?rows V D] obtain w3 where
    w3: "reset_loop ?rows V D ?w2 = (w3, Inr ())"
        "users w3 = apply_resets ?rows V D (users ?w2)" "store_up w3"
        "settings w3 = settings ?w2" "admin_sessions w3 = admin_sessions ?w2"
        "ADMIN_PASSWORD w3 = ADMIN_PASSWORD ?w2"
    by blast
  have "daily_reset_body w = (print Finished w3, Inr ())"
    using assms w3(1) store_up_next [OF assms(1)]
    by (simp add: daily_reset_body_def postgres_conn_eq)
  then show ?thesis using w3(2-6) by (simp add: print_def store_up_def)
qed

lemma get_setting_print [simp]: "get_setting k d (print l w) = get_setting k d w"
  by (simp add: get_setting_def print_def)

lemma daily_reset_up:
  assumes "store_up w"
    and "py_int (get_setting ''daily_reset_quota_vip'' ''1000000'' w) = Some V"
    and "py_int (get_setting ''daily_reset_quota_default'' ''50000'' w) = Some D"
  shows "users (daily_reset t w) = apply_resets (users_to_reset (users w)) V D (users w) \<and>
         store_up (daily_reset t w) \<and> settings (daily_reset t w) = settings w"
proof -
  have "store_up (print (Started t) w)" using assms(1) by simp
  from daily_reset_body_up [OF this, of V D] assms(2,3) obtain w' where
    "daily_reset_body (print (Started t) w) = (w', Inr ())"
    "users w' = apply_resets (users_to_reset (users (print (Started t) w))) V D (users (print (Started t) w))"
    "store_up w'" "settings w' = settings (print (Started t) w)"
    by auto
  then show ?thesis by (simp add: daily_reset_def print_def)
qed

subsection \<open>The job under any availability schedule\<close>

lemma reset_loop_any:
  "\<exists>k \<le> length rows.
      users (fst (reset_loop rows V D w)) = apply_resets (take k rows) V D (users w) \<and>
      (snd (reset_loop rows V D w) = Inr () \<and> k = length rows \<or>
       snd (reset_loop rows V D w) = Inl OperationalError \<and> k < length rows)"
proof (induction rows arbitrary: w)
  case Nil
  then show ?case by (simp add: apply_resets_def)
next
  case (Cons c rows)
  obtain i g where c: "c = (i, g)" by (cases c)
  show ?case
  proof (cases "next_conn_fails w")
    case True
    then have "users (fst (reset_loop (c # rows) V D w)) = apply_resets (take 0 (c # rows)) V D (users w)"
      "snd (reset_loop (c # rows) V D w) = Inl OperationalError"
      by (simp_all add: c reset_user_quota_eq apply_resets_def)
    then show ?thesis by (intro exI [of _ 0]) simp
  next
    case False
    let ?w1 = "print (ResetDone g i (quota_to_set V D g))
                (w\<lparr>pg_faults := tl (pg_faults w),
                    users := sql_reset_quota i (quota_to_set V D g) (users w)\<rparr>)"
    have unfold: "reset_loop (c # rows) V D w = reset_loop rows V D ?w1"
      using False by (simp add: c reset_user_quota_eq)
    from Cons.IH [of ?w1] obtain k where k: "k \<le> length rows"
      "users (fst (reset_loop rows V D ?w1)) = apply_resets (take k rows) V D (users ?w1)"
      "snd (reset_loop rows V D ?w1) = Inr () \<and> k = length rows \<or>
       snd (reset_loop rows V D ?w1) = Inl OperationalError \<and> k < length rows"
      by blast
    have "apply_resets (take k rows) V D (users ?w1) =
            apply_resets (take (Suc k) (c # rows)) V D (users w)"
      by (simp add: c apply_resets_def print_def)
    with k(2) have "users (fst (reset_loop (c # rows) V D w)) =
            apply_resets (take (Suc k) (c # rows)) V D (users w)"
      by (simp only: unfold)
    with k(1,3) show ?thesis
      by (intro exI [of _ "Suc k"]) (auto simp: unfold)
  qed
qed

lemma reset_loop_frame:
  "admin_sessions (fst (reset_loop rows V D w)) = admin_sessions w \<and>
   settings (fst (reset_loop rows V D w)) = settings w \<and>
   ADMIN_PASSWORD (fst (reset_loop rows V D w)) = ADMIN_PASSWORD w"
proof (induction rows arbitrary: w)
  case Nil
  then show ?case by simp
next
  case (Cons c rows)
  obtain i g where c: "c = (i, g)" by (cases c)
  show ?case
  proof (cases "next_conn_fails w")
    case True
    then show ?thesis by (simp add: c reset_user_quota_eq)
  next
    case False
    let ?w1 = "print (ResetDone g i (quota_to_set V D g))
                (w\<lparr>pg_faults := tl (pg_faults w),
                    users := sql_reset_quota i (quota_to_set V D g) (users w)\<rparr>)"
    have unfold: "reset_loop (c # rows) V D w = reset_loop rows V D ?w1"
      using False by (simp add: c reset_user_quota_eq)
    show ?thesis using Cons.IH [of ?w1] by (simp add: unfold print_def)
  qed
qed

lemma daily_reset_body_any:
  "(py_int (get_setting ''daily_reset_quota_vip'' ''1000000'' w) = None \<or>
    py_int (get_setting ''daily_reset_quota_default'' ''50000'' w) = None) \<and>
   daily_reset_body w = (w, Inl ValueError)
   \<or>
   (\<exists>V D k. py_int (get_setting ''daily_reset_quota_vip'' ''1000000'' w) = Some V \<and>
      py_int (get_setting ''daily_reset_quota_default'' ''50000'' w) = Some D \<and>
      k \<le> length (users_to_reset (users w)) \<and>
      users (fst (daily_reset_body w)) = apply_resets (take k (users_to_reset (users w))) V D (users w) \<and>
      (snd (daily_reset_body w) = Inr () \<and> k = length (users_to_reset (users w)) \<or>
       snd (daily_reset_body w) = Inl OperationalError))"
proof (cases "py_int (get_setting ''daily_reset_quota_vip'' ''1000000'' w)")
  case None
  then show ?thesis by (simp add: daily_reset_body_def)
next
  case V: (Some V)
  show ?thesis
  proof (cases "py_int (get_setting ''daily_reset_quota_default'' ''50000'' w)")
    case None
    then show ?thesis by (simp add: daily_reset_body_def V)
  next
    case D: (Some D)
    let ?rows = "users_to_reset (users w)"
    show ?thesis
    proof (cases "next_conn_fails w")
      case True
      then have "users (fst (daily_reset_body w)) = apply_resets (take 0 ?rows) V D (users w)"
        "snd (daily_reset_body w) = Inl OperationalError"
        by (simp_all add: daily_reset_body_def V D postgres_conn_eq apply_resets_def)
      then show ?thesis using V D by (intro disjI2 exI [of _ V] exI [of _ D] exI [of _ 0]) simp
    next
      case False
      let ?w2 = "print (Found (length ?rows)) (w\<lparr>pg_faults := tl (pg_faults w)\<rparr>)"
      obtain w3 r where loop: "reset_loop ?rows V D ?w2 = (w3, r)" by (cases "reset_loop ?rows V D ?w2")
      from reset_loop_any [of ?rows V D ?w2] loop obtain k where k: "k \<le> length ?rows"
        "users w3 = apply_resets (take k ?rows) V D (users ?w2)"
        "r = Inr () \<and> k = length ?rows \<or> r = Inl OperationalError \<and> k < length ?rows"
        by auto
      have body: "daily_reset_body w = (case r of Inl e \<Rightarrow> (w3, Inl e) | Inr _ \<Rightarrow> (print Finished w3, Inr ()))"
        using False loop by (simp add: daily_reset_body_def V D postgres_conn_eq split: sum.splits)
      have "users (fst (daily_reset_body w)) = apply_resets (take k ?rows) V D (users w)"
        using k(2,3) by (auto simp: body print_def)
      moreover have "snd (daily_reset_body w) = Inr () \<and> k = length ?rows \<or>
                     snd (daily_reset_body w) = Inl OperationalError"
        using k(3) by (auto simp: body)
      ultimately show ?thesis using V D k(1)
        by (intro disjI2 exI [of _ V] exI [of _ D] exI [of _ k]) simp
    qed
  qed
qed

lemma daily_reset_body_frame:
  "admin_sessions (fst (daily_reset_body w)) = admin_sessions w \<and>
   settings (fst (daily_reset_body w)) = settings w \<and>
   ADMIN_PASSWORD (fst (daily_reset_body w)) = ADMIN_PASSWORD w"
proof (cases "py_int (get_setting ''daily_reset_quota_vip'' ''1000000'' w)")
  case None
  then show ?thesis by (simp add: daily_reset_body_def)
next
  case V: (Some V)
  show ?thesis
  proof (cases "py_int (get_setting ''daily_reset_quota_default'' ''50000'' w)")
    case None
    then show ?thesis by (simp add: daily_reset_body_def V)
  next
    case D: (Some D)
    let ?rows = "users_to_reset (users w)"
    show ?thesis
    proof (cases "next_conn_fails w")
      case True
      then show ?thesis by (simp add: daily_reset_body_def V D postgres_conn_eq)
    next
      case False
      let ?w2 = "print (Found (length ?rows)) (w\<lparr>pg_faults := tl (pg_faults w)\<rparr>)"
      obtain w3 r where loop: "reset_loop ?rows V D ?w2 = (w3, r)"
        by (cases "reset_loop ?rows V D ?w2")
      have w3: "admin_sessions w3 = admin_sessions w \<and> settings w3 = settings w \<and>
                ADMIN_PASSWORD w3 = ADMIN_PASSWORD w"
        using reset_loop_frame [of ?rows V D ?w2] loop by (simp add: print_def)
      have "daily_reset_body w =
              (case r of Inl e \<Rightarrow> (w3, Inl e) | Inr _ \<Rightarrow> (print Finished w3, Inr ()))"
        using False loop
        by (simp add: daily_reset_body_def V D postgres_conn_eq split: sum.splits)
      then show ?thesis using w3 by (cases r) (simp_all add: print_def)
    qed
  qed
qed

lemma daily_reset_frame:
  "admin_sessions (daily_reset t w) = admin_sessions w \<and>
   settings (daily_reset t w) = settings w \<and>
   ADMIN_PASSWORD (daily_reset t w) = ADMIN_PASSWORD w"
  using daily_reset_body_frame [of "print (Started t) w"]
  by (auto simp: daily_reset_def print_def split: prod.splits sum.splits)

subsection \<open>Literals\<close>

lemma py_int_literals:
  "py_int ''1000000'' = Some 1000000" "py_int ''50000'' = Some 50000"
  "py_int ''100000'' = Some 100000" "py_int ''20000'' = Some 20000"
  by (simp_all add: py_int_def strip_def is_space_def parse_unsigned_def digit_of_def)

subsection \<open>The reset job, tier by tier\<close>

lemma py_int_examples:
  "py_int [CHR 0x1C, CHR ''7''] = None" "py_int [CHR ''7'', CHR 0x1F] = None"
  "py_int [CHR 0xA0, CHR ''5'', CHR 0x85] = Some 5" "py_int '' -1_000 '' = Some (- 1000)"
  "py_int ''1__0'' = None" "py_int ''+'' = None" "py_int [] = None" "py_int ''0x10'' = None"
  by (simp_all add: py_int_def strip_def is_space_def parse_unsigned_def digit_of_def)

lemma job_quota_read:
  assumes "case settings w key of None \<Rightarrow> py_int dflt = Some V | Some s \<Rightarrow> py_int s = Some V"
  shows "py_int (get_setting key dflt w) = Some V"
  using assms by (cases "settings w key") (simp_all add: get_setting_def)

text \<open>
  Claim C1.  Let \<open>V\<close> and \<open>D\<close> be the VIP and the default reset quota as the job
  reads them: the integer that the stored text parses to, and 1000000 and
  50000 where the key is unset.  When \<open>id\<close> is the key of \<open>users\<close> and the
  database answers, a run of \<open>daily_reset\<close> leaves every live row of the group
  \<open>vip\<close> with \<open>quota = V\<close> and \<open>used_quota = 0\<close>, every live row of the group
  \<open>default\<close> with \<open>quota = D\<close> and \<open>used_quota = 0\<close>, and every other row as it
  was.
\<close>

theorem daily_reset_by_tier:
  assumes "distinct (map id' (users w))"
    and "store_up w"
    and "case settings w ''daily_reset_quota_vip'' of
           None \<Rightarrow> V = 1000000 | Some s \<Rightarrow> py_int s = Some V"
    and "case settings w ''daily_reset_quota_default'' of
           None \<Rightarrow> D = 50000 | Some s \<Rightarrow> py_int s = Some D"
  shows "users (daily_reset triggered_by w) = map (tier_reset V D) (users w)"
proof -
  have V: "py_int (get_setting ''daily_reset_quota_vip'' ''1000000'' w) = Some V"
    using assms(3) by (intro job_quota_read) (auto simp: py_int_literals split: option.splits)
  have D: "py_int (get_setting ''daily_reset_quota_default'' ''50000'' w) = Some D"
    using assms(4) by (intro job_quota_read) (auto simp: py_int_literals split: option.splits)
  have "users (daily_reset triggered_by w) =
          apply_resets (users_to_reset (users w)) V D (users w)"
    using daily_reset_up [OF assms(2) V D] by simp
  then show ?thesis using assms(1) by (simp add: apply_resets_tier)
qed

theorem daily_reset_by_tier_witness:
  "settings example_world ''daily_reset_quota_vip'' = Some ''100000'' \<and>
   settings example_world ''daily_reset_quota_default'' = Some ''20000'' \<and>
   users (daily_reset ''scheduled'' example_world) =
     [user_A\<lparr>quota := 100000, used_quota := 0\<rparr>, user_B\<lparr>quota := 20000, used_quota := 0\<rparr>,
      user_C, user_D] \<and>
   settings unset_world ''daily_reset_quota_vip'' = None \<and>
   settings unset_world ''daily_reset_quota_default'' = None \<and>
   users (daily_reset ''scheduled'' unset_world) =
     [user_A\<lparr>quota := 1000000, used_quota := 0\<rparr>, user_B\<lparr>quota := 50000, used_quota := 0\<rparr>,
      user_C, user_D]"
proof -
  have pk: "distinct (map id' (users example_world))" "distinct (map id' (users unset_world))"
    by (simp_all add: unset_world_def example_world_def user_A_def user_B_def user_C_def user_D_def)
  have up: "store_up example_world" "store_up unset_world"
    by (simp_all add: unset_world_def example_world_def store_up_def)
  have set: "settings example_world ''daily_reset_quota_vip'' = Some ''100000''"
    "settings example_world ''daily_reset_quota_default'' = Some ''20000''"
    by (simp_all add: example_world_def)
  have unset: "settings unset_world ''daily_reset_quota_vip'' = None"
    "settings unset_world ''daily_reset_quota_default'' = None"
    by (simp_all add: unset_world_def)
  have v1: "case settings example_world ''daily_reset_quota_vip'' of
           None \<Rightarrow> (100000::int) = 1000000 | Some s \<Rightarrow> py_int s = Some 100000"
    by (simp add: set py_int_literals)
  have d1: "case settings example_world ''daily_reset_quota_default'' of
           None \<Rightarrow> (20000::int) = 50000 | Some s \<Rightarrow> py_int s = Some 20000"
    by (simp add: set py_int_literals)
  have v2: "case settings unset_world ''daily_reset_quota_vip'' of
           None \<Rightarrow> (1000000::int) = 1000000 | Some s \<Rightarrow> py_int s = Some 1000000"
    by (simp add: unset)
  have d2: "case settings unset_world ''daily_reset_quota_default'' of
           None \<Rightarrow> (50000::int) = 50000 | Some s \<Rightarrow> py_int s = Some 50000"
    by (simp add: unset)
  have us: "users example_world = [user_A, user_B, user_C, user_D]"
    "users unset_world = [user_A, user_B, user_C, user_D]"
    by (simp_all add: unset_world_def example_world_def)
  have t1: "map (tier_reset 100000 20000) [user_A, user_B, user_C, user_D] =
      [user_A\<lparr>quota := 100000, used_quota := 0\<rparr>, user_B\<lparr>quota := 20000, used_quota := 0\<rparr>,
       user_C, user_D]"
    by (simp add: tier_reset_def user_A_def user_B_def user_C_def user_D_def)
  have t2: "map (tier_reset 1000000 50000) [user_A, user_B, user_C, user_D] =
      [user_A\<lparr>quota := 1000000, used_quota := 0\<rparr>, user_B\<lparr>quota := 50000, used_quota := 0\<rparr>,
       user_C, user_D]"
    by (simp add: tier_reset_def user_A_def user_B_def user_C_def user_D_def)
  have r1: "users (daily_reset ''scheduled'' example_world) =
      [user_A\<lparr>quota := 100000, used_quota := 0\<rparr>, user_B\<lparr>quota := 20000, used_quota := 0\<rparr>,
       user_C, user_D]"
    using daily_reset_by_tier [OF pk(1) up(1) v1 d1, of "''scheduled''"] by (simp only: us t1)
  have r2: "users (daily_reset ''scheduled'' unset_world) =
      [user_A\<lparr>quota := 1000000, used_quota := 0\<rparr>, user_B\<lparr>quota := 50000, used_quota := 0\<rparr>,
       user_C, user_D]"
    using daily_reset_by_tier [OF pk(2) up(2) v2 d2, of "''scheduled''"] by (simp only: us t2)
  from set unset r1 r2 show ?thesis by (simp only: simp_thms)
qed

subsection \<open>Authentication\<close>

lemma is_valid_token_iff:
  "is_valid_token t w \<longleftrightarrow> (\<exists>row \<in> set (admin_sessions w). token row = t)"
  by (auto simp: is_valid_token_def find_None_iff)

lemma startswith_iff: "startswith s p \<longleftrightarrow> (\<exists>t. s = p @ t)"
proof
  assume "startswith s p"
  then have "s = p @ drop (length p) s"
    by (metis append_take_drop_id startswith_def)
  then show "\<exists>t. s = p @ t" ..
next
  assume "\<exists>t. s = p @ t"
  then show "startswith s p" by (auto simp: startswith_def)
qed

lemma require_admin_auth_eq:
  "require_admin_auth request w =
     (if \<exists>t. authorization request = Some (''Bearer '' @ t) \<and> is_valid_token t w
      then Inr () else Inl (HTTPException 403 ''Admin access required''))"
proof (cases "authorization request")
  case None
  then show ?thesis by (simp add: require_admin_auth_def startswith_def)
next
  case (Some h)
  show ?thesis
  proof (cases "startswith h ''Bearer ''")
    case True
    then obtain t where h: "h = ''Bearer '' @ t" by (auto simp: startswith_iff)
    then have "drop 7 h = t" by simp
    with True Some h show ?thesis by (simp add: require_admin_auth_def)
  next
    case False
    then have "\<nexists>t. h = ''Bearer '' @ t" by (simp add: startswith_iff)
    with False Some show ?thesis by (simp add: require_admin_auth_def)
  qed
qed

lemma handle_rejected:
  assumes "require_admin_auth request w = Inl e" and "spec_protected call"
  shows "handle call request w = (w, Inl e)"
proof (cases call)
  case (PostLogin p u n)
  with assms(2) show ?thesis by simp
next
  case GetDailyResetSettings
  with assms(1) show ?thesis by (simp add: get_daily_reset_settings_def)
next
  case (PostDailyResetSettings p)
  with assms(1) show ?thesis by (cases p) simp
next
  case PostTriggerDailyReset
  with assms(1) show ?thesis by (simp add: trigger_daily_reset_now_def)
next
  case (GetUser i)
  with assms(1) show ?thesis by (simp add: get_user_info_def)
next
  case (PostUserGroup p)
  with assms(1) show ?thesis by (cases p) simp
next
  case (PostQuotaIncrement p)
  with assms(1) show ?thesis by (cases p) simp
next
  case (PostQuotaReset p)
  with assms(1) show ?thesis by (cases p) simp
qed

text \<open>
  Claim C2.  A request to any route that needs a bearer token, whose
  \<open>Authorization\<close> header is absent, does not start with \<open>Bearer \<close>, or carries
  a token that no row of \<open>admin_sessions\<close> holds, is answered with the 403
  ``Admin access required'', and the state it leaves is the state it found:
  no table was written, no line was printed, and no database connection was
  opened.
\<close>

theorem unauthenticated_request_rejected:
  assumes "spec_protected call"
    and "authorization request = None
         \<or> (\<exists>h. authorization request = Some h \<and> \<not> startswith h ''Bearer '')
         \<or> (\<exists>t. authorization request = Some (''Bearer '' @ t) \<and>
                 (\<forall>row \<in> set (admin_sessions w). token row \<noteq> t))"
  shows "handle call request w = (w, Inl (HTTPException 403 ''Admin access required''))"
proof -
  have "\<not> (\<exists>t. authorization request = Some (''Bearer '' @ t) \<and> is_valid_token t w)"
    using assms(2) by (auto simp: is_valid_token_iff startswith_iff)
  then have "require_admin_auth request w = Inl (HTTPException 403 ''Admin access required'')"
    by (simp only: require_admin_auth_eq if_False)
  then show ?thesis using assms(1) by (rule handle_rejected)
qed

theorem unauthenticated_request_rejected_witness:
  "handle (PostQuotaReset (UserQuotaResetPayload 1 500)) \<lparr>authorization = None\<rparr> example_world =
     (example_world, Inl (HTTPException 403 ''Admin access required'')) \<and>
   handle (PostDailyResetSettings (DailyResetSettingsPayload 1 2))
       \<lparr>authorization = Some ''Basic 00ff''\<rparr> example_world =
     (example_world, Inl (HTTPException 403 ''Admin access required'')) \<and>
   handle PostTriggerDailyReset \<lparr>authorization = Some ''Bearer 00fe''\<rparr> example_world =
     (example_world, Inl (HTTPException 403 ''Admin access required''))"
proof -
  have a: "spec_protected (PostQuotaReset (UserQuotaResetPayload 1 500))"
    "spec_protected (PostDailyResetSettings (DailyResetSettingsPayload 1 2))"
    "spec_protected PostTriggerDailyReset"
    by simp_all
  have b1: "authorization \<lparr>authorization = None\<rparr> = None
         \<or> (\<exists>h. authorization \<lparr>authorization = None\<rparr> = Some h \<and> \<not> startswith h ''Bearer '')
         \<or> (\<exists>t. authorization \<lparr>authorization = None\<rparr> = Some (''Bearer '' @ t) \<and>
                 (\<forall>row \<in> set (admin_sessions example_world). token row \<noteq> t))"
    by simp
  have b2: "authorization \<lparr>authorization = Some ''Basic 00ff''\<rparr> = None
         \<or> (\<exists>h. authorization \<lparr>authorization = Some ''Basic 00ff''\<rparr> = Some h \<and> \<not> startswith h ''Bearer '')
         \<or> (\<exists>t. authorization \<lparr>authorization = Some ''Basic 00ff''\<rparr> = Some (''Bearer '' @ t) \<and>
                 (\<forall>row \<in> set (admin_sessions example_world). token row \<noteq> t))"
    by (simp add: startswith_def)
  have b3: "authorization \<lparr>authorization = Some ''Bearer 00fe''\<rparr> = None
         \<or> (\<exists>h. authorization \<lparr>authorization = Some ''Bearer 00fe''\<rparr> = Some h \<and> \<not> startswith h ''Bearer '')
         \<or> (\<exists>t. authorization \<lparr>authorization = Some ''Bearer 00fe''\<rparr> = Some (''Bearer '' @ t) \<and>
                 (\<forall>row \<in> set (admin_sessions example_world). token row \<noteq> t))"
    by (simp add: example_world_def)
  show ?thesis
    using unauthenticated_request_rejected [OF a(1) b1]
      unauthenticated_request_rejected [OF a(2) b2]
      unauthenticated_request_rejected [OF a(3) b3]
    by simp
qed

subsection \<open>Sessions\<close>

lemma handle_sessions:
  "admin_sessions (fst (handle call request w)) =
     admin_sessions w @
       (case call of
          PostLogin (AdminLoginPayload password) urandom16 utcnow \<Rightarrow>
            if password = ADMIN_PASSWORD w
            then [\<lparr>token = hex urandom16, created_at = utcnow\<rparr>] else []
        | _ \<Rightarrow> [])"
proof (cases call)
  case (PostLogin p u n)
  then show ?thesis by (cases p) (simp add: Let_def)
next
  case GetDailyResetSettings
  then show ?thesis
    by (simp add: get_daily_reset_settings_def split: sum.splits option.splits)
next
  case (PostDailyResetSettings p)
  then show ?thesis by (cases p) (simp add: set_setting_def split: sum.splits)
next
  case PostTriggerDailyReset
  then show ?thesis
    by (simp add: trigger_daily_reset_now_def daily_reset_frame split: sum.splits)
next
  case (GetUser i)
  then show ?thesis by (simp add: get_user_info_def get_user_by_id_eq split: sum.splits option.splits)
next
  case (PostUserGroup p)
  then show ?thesis by (cases p) (simp add: update_user_group_eq split: sum.splits)
next
  case (PostQuotaIncrement p)
  then show ?thesis by (cases p) (simp add: increment_user_quota_eq split: sum.splits)
next
  case (PostQuotaReset p)
  then show ?thesis by (cases p) (simp add: reset_user_quota_eq split: sum.splits)
qed

lemma handle_token_body:
  "snd (handle call request w) = Inr (TokenBody t) \<longleftrightarrow>
     (\<exists>urandom16 utcnow. call = PostLogin (AdminLoginPayload (ADMIN_PASSWORD w)) urandom16 utcnow \<and>
        t = hex urandom16)"
proof (cases call)
  case (PostLogin p u n)
  then show ?thesis by (cases p) (auto simp: Let_def)
next
  case GetDailyResetSettings
  then show ?thesis
    by (simp add: get_daily_reset_settings_def split: sum.splits option.splits)
next
  case (PostDailyResetSettings p)
  then show ?thesis by (cases p) (simp split: sum.splits)
next
  case PostTriggerDailyReset
  then show ?thesis
    by (simp add: trigger_daily_reset_now_def split: sum.splits)
next
  case (GetUser i)
  then show ?thesis by (simp add: get_user_info_def get_user_by_id_eq split: sum.splits option.splits)
next
  case (PostUserGroup p)
  then show ?thesis by (cases p) (simp add: update_user_group_eq split: sum.splits)
next
  case (PostQuotaIncrement p)
  then show ?thesis by (cases p) (simp add: increment_user_quota_eq split: sum.splits)
next
  case (PostQuotaReset p)
  then show ?thesis by (cases p) (simp add: reset_user_quota_eq split: sum.splits)
qed

lemma handle_valid_tokens:
  "is_valid_token t (fst (handle call request w)) \<longleftrightarrow>
     is_valid_token t w \<or> snd (handle call request w) = Inr (TokenBody t)"
proof (cases "\<exists>urandom16 utcnow. call = PostLogin (AdminLoginPayload (ADMIN_PASSWORD w)) urandom16 utcnow")
  case True
  then obtain u n where call: "call = PostLogin (AdminLoginPayload (ADMIN_PASSWORD w)) u n" by blast
  have "admin_sessions (fst (handle call request w)) =
          admin_sessions w @ [\<lparr>token = hex u, created_at = n\<rparr>]"
    by (simp only: handle_sessions) (simp add: call)
  then show ?thesis unfolding handle_token_body is_valid_token_iff
    by (auto simp: call)
next
  case False
  then have "admin_sessions (fst (handle call request w)) = admin_sessions w"
    by (auto simp: handle_sessions split: api_call.splits AdminLoginPayload.splits)
  with False show ?thesis unfolding handle_token_body is_valid_token_iff by auto
qed

lemma run_valid_tokens:
  "is_valid_token t (fst (run evs w)) \<longleftrightarrow>
     is_valid_token t w \<or> Inr (TokenBody t) \<in> set (snd (run evs w))"
proof (induction evs arbitrary: w)
  case Nil
  then show ?case by simp
next
  case (Cons ev evs)
  show ?case
  proof (cases ev)
    case (Http call request)
    obtain w' out where h: "handle call request w = (w', out)" by (cases "handle call request w")
    obtain w'' outs where r: "run evs w' = (w'', outs)" by (cases "run evs w'")
    have step: "is_valid_token t w' \<longleftrightarrow> is_valid_token t w \<or> out = Inr (TokenBody t)"
      using handle_valid_tokens [of t call request w] h by simp
    have "is_valid_token t w'' \<longleftrightarrow> is_valid_token t w' \<or> Inr (TokenBody t) \<in> set outs"
      using Cons.IH [of w'] r by simp
    with step show ?thesis by (auto simp: Http h r)
  next
    case Cron
    have "is_valid_token t (daily_reset ''scheduled'' w) = is_valid_token t w"
      by (simp add: is_valid_token_def daily_reset_frame)
    with Cons.IH [of "daily_reset ''scheduled'' w"] show ?thesis by (simp add: Cron)
  qed
qed

text \<open>
  Claim C7.  A login with the admin password returns a token, stores it, and
  the stored token passes \<open>require_admin_auth\<close> from then on.  Over any
  sequence of requests and scheduler firings, the tokens that are valid at
  the end are those that were valid at the start and those that a login
  returned in between; \<open>is_valid_token\<close> holds exactly of the tokens that a row
  of \<open>admin_sessions\<close> carries.
\<close>

theorem login_token_valid_iff_issued:
  "(password = ADMIN_PASSWORD w \<longrightarrow>
      (\<exists>w' t. admin_login (AdminLoginPayload password) urandom16 utcnow w = (w', Inr (TokenBody t)) \<and>
         t = hex urandom16 \<and>
         admin_sessions w' = admin_sessions w @ [\<lparr>token = t, created_at = utcnow\<rparr>] \<and>
         is_valid_token t w' \<and>
         require_admin_auth \<lparr>authorization = Some (''Bearer '' @ t)\<rparr> w' = Inr () \<and>
         is_valid_token t (fst (run evs w')))) \<and>
   (is_valid_token s w \<longleftrightarrow> (\<exists>row \<in> set (admin_sessions w). token row = s)) \<and>
   (is_valid_token s (fst (run evs w)) \<longleftrightarrow>
      is_valid_token s w \<or> Inr (TokenBody s) \<in> set (snd (run evs w)))"
proof -
  have "\<exists>w' t. admin_login (AdminLoginPayload password) urandom16 utcnow w = (w', Inr (TokenBody t)) \<and>
         t = hex urandom16 \<and>
         admin_sessions w' = admin_sessions w @ [\<lparr>token = t, created_at = utcnow\<rparr>] \<and>
         is_valid_token t w' \<and>
         require_admin_auth \<lparr>authorization = Some (''Bearer '' @ t)\<rparr> w' = Inr () \<and>
         is_valid_token t (fst (run evs w'))"
    if "password = ADMIN_PASSWORD w"
  proof -
    let ?t = "hex urandom16"
    let ?w' = "w\<lparr>admin_sessions := admin_sessions w @ [\<lparr>token = ?t, created_at = utcnow\<rparr>]\<rparr>"
    have login: "admin_login (AdminLoginPayload password) urandom16 utcnow w = (?w', Inr (TokenBody ?t))"
      using that by (simp add: Let_def)
    have valid: "is_valid_token ?t ?w'" by (simp add: is_valid_token_iff)
    then have "require_admin_auth \<lparr>authorization = Some (''Bearer '' @ ?t)\<rparr> ?w' = Inr ()"
      by (simp add: require_admin_auth_eq)
    moreover have "is_valid_token ?t (fst (run evs ?w'))"
      using valid by (simp add: run_valid_tokens)
    ultimately show ?thesis using login valid by simp
  qed
  then show ?thesis
    using is_valid_token_iff [of s w] run_valid_tokens [of s evs w] by blast
qed

lemma hex_example_bytes: "hex example_bytes = ''3a7f00ff109ce2415bd806a7c32e94b0''"
  by (simp add: hex_def hex_of_byte_def example_bytes_def)

lemma snd_run_example:
  "snd (run example_events example_world) =
     [Inl (HTTPException 401 ''Invalid admin password''),
      Inr (TokenBody ''3a7f00ff109ce2415bd806a7c32e94b0'')]"
proof -
  have pw: "ADMIN_PASSWORD (daily_reset ''scheduled'' example_world) = ''admin123''"
    by (simp add: daily_reset_frame example_world_def)
  have "ADMIN_PASSWORD example_world = ''admin123''" by (simp add: example_world_def)
  then show ?thesis
    using pw by (simp add: example_events_def hex_example_bytes Let_def split: prod.splits)
qed

theorem login_token_valid_iff_issued_witness:
  "ADMIN_PASSWORD example_world = ''admin123'' \<and>
   (\<exists>w'. admin_login (AdminLoginPayload ''admin123'') example_bytes ''2024-06-02T08:00:05''
            example_world = (w', Inr (TokenBody ''3a7f00ff109ce2415bd806a7c32e94b0'')) \<and>
          require_admin_auth
            \<lparr>authorization = Some ''Bearer 3a7f00ff109ce2415bd806a7c32e94b0''\<rparr> w' = Inr ()) \<and>
   is_valid_token ''3a7f00ff109ce2415bd806a7c32e94b0'' (fst (run example_events example_world)) \<and>
   is_valid_token ''00ff'' (fst (run example_events example_world)) \<and>
   \<not> is_valid_token ''3a7f00ff109ce2415bd806a7c32e94b1'' (fst (run example_events example_world))"
proof -
  have pw: "''admin123'' = ADMIN_PASSWORD example_world" by (simp add: example_world_def)
  have old: "is_valid_token ''00ff'' example_world"
    "\<not> is_valid_token ''3a7f00ff109ce2415bd806a7c32e94b0'' example_world"
    "\<not> is_valid_token ''3a7f00ff109ce2415bd806a7c32e94b1'' example_world"
    by (simp_all add: is_valid_token_def example_world_def)
  note inst = login_token_valid_iff_issued
    [of "''admin123''" example_world example_bytes "''2024-06-02T08:00:05''" example_events]
  from inst [of "''3a7f00ff109ce2415bd806a7c32e94b0''"] pw
  have login: "\<exists>w'. admin_login (AdminLoginPayload ''admin123'') example_bytes ''2024-06-02T08:00:05''
            example_world = (w', Inr (TokenBody ''3a7f00ff109ce2415bd806a7c32e94b0'')) \<and>
          require_admin_auth
            \<lparr>authorization = Some ''Bearer 3a7f00ff109ce2415bd806a7c32e94b0''\<rparr> w' = Inr ()"
    by (auto simp: hex_example_bytes)
  have new: "is_valid_token ''3a7f00ff109ce2415bd806a7c32e94b0'' (fst (run example_events example_world))"
    using inst [of "''3a7f00ff109ce2415bd806a7c32e94b0''"] by (simp add: snd_run_example)
  have kept: "is_valid_token ''00ff'' (fst (run example_events example_world))"
    using inst [of "''00ff''"] old(1) by simp
  have other: "\<not> is_valid_token ''3a7f00ff109ce2415bd806a7c32e94b1'' (fst (run example_events example_world))"
    using inst [of "''3a7f00ff109ce2415bd806a7c32e94b1''"] old(3) by (simp add: snd_run_example)
  from pw login new kept other show ?thesis by simp
qed

subsection \<open>\<open>int(str(i)) = i\<close>\<close>

lemma below_ten: "k < (10::nat) \<Longrightarrow> k \<in> {0, 1, 2, 3, 4, 5, 6, 7, 8, 9}"
  by auto

lemma digit_of_nth: "k < 10 \<Longrightarrow> digit_of (''0123456789'' ! k) = Some k"
  using below_ten [of k] by (auto simp: digit_of_def)

lemma is_space_nth: "k < 10 \<Longrightarrow> \<not> is_space (''0123456789'' ! k)"
  using below_ten [of k] by (auto simp: is_space_def)

lemma nat_to_dec_digits:
  "c \<in> set (nat_to_dec n) \<Longrightarrow> \<exists>k < 10. c = ''0123456789'' ! k"
proof (induction n rule: nat_to_dec.induct)
  case (1 n)
  show ?case
  proof (cases "n < 10")
    case True
    with "1.prems" show ?thesis by (auto simp: nat_to_dec.simps [of n])
  next
    case False
    with "1.prems" have "c \<in> set (nat_to_dec (n div 10)) \<or> c = ''0123456789'' ! (n mod 10)"
      by (auto simp: nat_to_dec.simps [of n])
    then show ?thesis
    proof
      assume "c \<in> set (nat_to_dec (n div 10))"
      with False "1.IH" show ?thesis by simp
    next
      assume "c = ''0123456789'' ! (n mod 10)"
      moreover have "n mod 10 < 10" by simp
      ultimately show ?thesis by blast
    qed
  qed
qed

lemma nat_to_dec_not_Nil: "nat_to_dec n \<noteq> []"
  by (subst nat_to_dec.simps) simp

lemma parse_digits_append:
  "\<forall>c \<in> set s. digit_of c \<noteq> None \<Longrightarrow>
     parse_digits (s @ t) acc =
       (case parse_digits s acc of None \<Rightarrow> None | Some a \<Rightarrow> parse_digits t a)"
  by (induction s arbitrary: acc) (auto split: option.splits)

lemma parse_digits_nat_to_dec: "parse_digits (nat_to_dec n) 0 = Some n"
proof (induction n rule: nat_to_dec.induct)
  case (1 n)
  show ?case
  proof (cases "n < 10")
    case True
    then show ?thesis by (simp add: nat_to_dec.simps [of n] digit_of_nth)
  next
    case False
    have digits: "\<forall>c \<in> set (nat_to_dec (n div 10)). digit_of c \<noteq> None"
      using nat_to_dec_digits digit_of_nth by fastforce
    have "parse_digits (nat_to_dec n) 0 =
            parse_digits (nat_to_dec (n div 10) @ [''0123456789'' ! (n mod 10)]) 0"
      using False by (simp add: nat_to_dec.simps [of n])
    also have "\<dots> = parse_digits [''0123456789'' ! (n mod 10)] (n div 10)"
      using False "1.IH" by (simp add: parse_digits_append [OF digits])
    also have "\<dots> = Some (n div 10 * 10 + n mod 10)"
      by (simp add: digit_of_nth)
    finally show ?thesis by simp
  qed
qed

lemma parse_unsigned_nat_to_dec: "parse_unsigned (nat_to_dec n) = Some n"
proof -
  obtain c cs where s: "nat_to_dec n = c # cs"
    using nat_to_dec_not_Nil [of n] by (cases "nat_to_dec n") auto
  then have "c \<in> set (nat_to_dec n)" by simp
  then have "digit_of c \<noteq> None" using nat_to_dec_digits digit_of_nth by fastforce
  then show ?thesis
    using parse_digits_nat_to_dec [of n] by (simp add: parse_unsigned_def s)
qed

lemma strip_no_space: "\<forall>c \<in> set s. \<not> is_space c \<Longrightarrow> strip s = s"
proof -
  assume a: "\<forall>c \<in> set s. \<not> is_space c"
  have "dropWhile is_space xs = xs" if "\<forall>c \<in> set xs. \<not> is_space c" for xs
    using that by (cases xs) simp_all
  from this [of s] this [of "rev s"] a show ?thesis by (simp add: strip_def)
qed

lemma py_int_py_str: "py_int (py_str i) = Some i"
proof (cases "i < 0")
  case True
  let ?s = "nat_to_dec (nat (- i))"
  have "\<forall>c \<in> set ?s. \<not> is_space c" using nat_to_dec_digits is_space_nth by fastforce
  then have "\<forall>c \<in> set (CHR ''-'' # ?s). \<not> is_space c" by (simp add: is_space_def)
  then have "strip (CHR ''-'' # ?s) = CHR ''-'' # ?s" by (rule strip_no_space)
  with True show ?thesis by (simp add: py_int_def py_str_def parse_unsigned_nat_to_dec)
next
  case False
  let ?s = "nat_to_dec (nat i)"
  obtain c cs where s: "?s = c # cs"
    using nat_to_dec_not_Nil [of "nat i"] by (cases ?s) auto
  have nospace: "\<forall>c \<in> set ?s. \<not> is_space c" using nat_to_dec_digits is_space_nth by fastforce
  have "c \<in> set ?s" by (simp add: s)
  then have "digit_of c \<noteq> None" using nat_to_dec_digits digit_of_nth by fastforce
  then have sign: "c \<noteq> CHR ''-''" "c \<noteq> CHR ''+''" by (auto simp: digit_of_def)
  have "strip ?s = c # cs" using strip_no_space [OF nospace] s by simp
  moreover have "parse_unsigned (c # cs) = Some (nat i)"
    using parse_unsigned_nat_to_dec [of "nat i"] s by simp
  ultimately show ?thesis using False sign by (simp add: py_int_def py_str_def)
qed

subsection \<open>The settings endpoint\<close>

lemma require_admin_auth_settings:
  "admin_sessions w' = admin_sessions w \<Longrightarrow> require_admin_auth request w' = require_admin_auth request w"
  by (simp add: require_admin_auth_def is_valid_token_def Let_def)

text \<open>
  Claim C6.  An authenticated POST of the reset settings with a negative
  \<open>vip_quota\<close> or \<open>default_quota\<close> raises the 400 ``Quota cannot be negative''
  and leaves the state, both stored values included, as it was.  With both
  values non-negative it stores the decimal text of each under its key,
  leaves every other key and table alone, and returns \<open>{ok, message}\<close>; the
  settings then read back as the two values.
\<close>

theorem set_daily_reset_settings_validates:
  assumes "require_admin_auth request w = Inr ()"
  shows "(vip_quota < 0 \<or> default_quota < 0 \<longrightarrow>
           set_daily_reset_settings (DailyResetSettingsPayload vip_quota default_quota) request w =
             (w, Inl (HTTPException 400 ''Quota cannot be negative''))) \<and>
         (0 \<le> vip_quota \<and> 0 \<le> default_quota \<longrightarrow>
           (\<exists>w'. set_daily_reset_settings (DailyResetSettingsPayload vip_quota default_quota) request w =
                   (w', Inr (OkMessage True ''Settings saved successfully.'')) \<and>
                 w' = w\<lparr>settings := (settings w)
                           (''daily_reset_quota_vip'' \<mapsto> py_str vip_quota,
                            ''daily_reset_quota_default'' \<mapsto> py_str default_quota)\<rparr> \<and>
                 get_daily_reset_settings request w' =
                   (w', Inr (SettingsBody vip_quota default_quota))))"
proof -
  let ?w' = "w\<lparr>settings := (settings w)
                (''daily_reset_quota_vip'' \<mapsto> py_str vip_quota,
                 ''daily_reset_quota_default'' \<mapsto> py_str default_quota)\<rparr>"
  have neg: "set_daily_reset_settings (DailyResetSettingsPayload vip_quota default_quota) request w =
               (w, Inl (HTTPException 400 ''Quota cannot be negative''))"
    if "vip_quota < 0 \<or> default_quota < 0"
    using assms that by simp
  have ok: "set_daily_reset_settings (DailyResetSettingsPayload vip_quota default_quota) request w =
              (?w', Inr (OkMessage True ''Settings saved successfully.''))"
    if "0 \<le> vip_quota \<and> 0 \<le> default_quota"
    using assms that by (auto simp: set_setting_def)
  have auth': "require_admin_auth request ?w' = Inr ()"
    using assms require_admin_auth_settings [of ?w' w request] by simp
  have "get_daily_reset_settings request ?w' = (?w', Inr (SettingsBody vip_quota default_quota))"
    using auth' by (simp add: get_daily_reset_settings_def get_setting_def py_int_py_str)
  with neg ok show ?thesis by blast
qed

theorem set_daily_reset_settings_validates_witness:
  "require_admin_auth \<lparr>authorization = Some ''Bearer 00ff''\<rparr> example_world = Inr () \<and>
   set_daily_reset_settings (DailyResetSettingsPayload (- 1) 700)
       \<lparr>authorization = Some ''Bearer 00ff''\<rparr> example_world =
     (example_world, Inl (HTTPException 400 ''Quota cannot be negative'')) \<and>
   set_daily_reset_settings (DailyResetSettingsPayload 700 (- 1))
       \<lparr>authorization = Some ''Bearer 00ff''\<rparr> example_world =
     (example_world, Inl (HTTPException 400 ''Quota cannot be negative'')) \<and>
   set_daily_reset_settings (DailyResetSettingsPayload 700 0)
       \<lparr>authorization = Some ''Bearer 00ff''\<rparr> example_world =
     (example_world\<lparr>settings := [''daily_reset_quota_vip'' \<mapsto> ''700'',
                                  ''daily_reset_quota_default'' \<mapsto> ''0'']\<rparr>,
      Inr (OkMessage True ''Settings saved successfully.''))"
proof -
  have auth: "require_admin_auth \<lparr>authorization = Some ''Bearer 00ff''\<rparr> example_world = Inr ()"
    by (simp add: require_admin_auth_def startswith_def is_valid_token_def example_world_def)
  have str: "py_str 700 = ''700''" "py_str 0 = ''0''"
    by (simp_all add: py_str_def nat_to_dec.simps)
  have same: "example_world\<lparr>settings := (settings example_world)
                 (''daily_reset_quota_vip'' \<mapsto> ''700'', ''daily_reset_quota_default'' \<mapsto> ''0'')\<rparr> =
              example_world\<lparr>settings := [''daily_reset_quota_vip'' \<mapsto> ''700'',
                                          ''daily_reset_quota_default'' \<mapsto> ''0'']\<rparr>"
    by (simp add: example_world_def)
  have neg1: "set_daily_reset_settings (DailyResetSettingsPayload (- 1) 700)
       \<lparr>authorization = Some ''Bearer 00ff''\<rparr> example_world =
     (example_world, Inl (HTTPException 400 ''Quota cannot be negative''))"
    using set_daily_reset_settings_validates [OF auth, of "- 1" 700] by (simp del: set_daily_reset_settings.simps)
  have neg2: "set_daily_reset_settings (DailyResetSettingsPayload 700 (- 1))
       \<lparr>authorization = Some ''Bearer 00ff''\<rparr> example_world =
     (example_world, Inl (HTTPException 400 ''Quota cannot be negative''))"
    using set_daily_reset_settings_validates [OF auth, of 700 "- 1"] by (simp del: set_daily_reset_settings.simps)
  have "set_daily_reset_settings (DailyResetSettingsPayload 700 0)
       \<lparr>authorization = Some ''Bearer 00ff''\<rparr> example_world =
     (example_world\<lparr>settings := (settings example_world)
                 (''daily_reset_quota_vip'' \<mapsto> py_str 700, ''daily_reset_quota_default'' \<mapsto> py_str 0)\<rparr>,
      Inr (OkMessage True ''Settings saved successfully.''))"
    using set_daily_reset_settings_validates [OF auth, of 700 0] by (auto simp del: set_daily_reset_settings.simps)
  then have ok: "set_daily_reset_settings (DailyResetSettingsPayload 700 0)
       \<lparr>authorization = Some ''Bearer 00ff''\<rparr> example_world =
     (example_world\<lparr>settings := [''daily_reset_quota_vip'' \<mapsto> ''700'',
                                  ''daily_reset_quota_default'' \<mapsto> ''0'']\<rparr>,
      Inr (OkMessage True ''Settings saved successfully.''))"
    by (simp only: str same)
  from auth neg1 neg2 ok show ?thesis by (simp only: simp_thms)
qed

subsection \<open>The statements on the table\<close>

lemma find_map_pres:
  "(\<And>x. P (f x) = P x) \<Longrightarrow> find P (map f xs) = map_option f (find P xs)"
  by (induction xs) simp_all

lemma find_SomeD: "find P xs = Some x \<Longrightarrow> P x \<and> x \<in> set xs"
  by (induction xs) (auto split: if_splits)

lemma truncate_quota [simp]:
  "user_info.truncate (u\<lparr>quota := q\<rparr>) = (user_info.truncate u)\<lparr>quota := q\<rparr>"
  "user_info.truncate (u\<lparr>used_quota := q\<rparr>) = (user_info.truncate u)\<lparr>used_quota := q\<rparr>"
  by (simp_all add: user_info.truncate_def)

lemma truncate_sel [simp]:
  "quota (user_info.truncate u) = quota u" "used_quota (user_info.truncate u) = used_quota u"
  "id' (user_info.truncate u) = id' u" "group' (user_info.truncate u) = group' u"
  by (simp_all add: user_info.truncate_def)

lemma select_after_reset:
  "sql_select_user i (sql_reset_quota i q us) =
     map_option (\<lambda>info. info\<lparr>quota := q, used_quota := 0\<rparr>) (sql_select_user i us)"
proof -
  let ?f = "\<lambda>u. if live_with_id i u then u\<lparr>quota := q, used_quota := 0\<rparr> else u"
  have "find (live_with_id i) (map ?f us) = map_option ?f (find (live_with_id i) us)"
    by (rule find_map_pres) (simp add: live_with_id_def)
  moreover have "live_with_id i u" if "find (live_with_id i) us = Some u" for u
    using that by (simp add: find_SomeD)
  ultimately show ?thesis
    by (cases "find (live_with_id i) us") (simp_all add: sql_select_user_def sql_reset_quota_def)
qed

lemma select_after_increment:
  "sql_select_user i (sql_increment_quota i d us) =
     map_option (\<lambda>info. info\<lparr>quota := quota info + d\<rparr>) (sql_select_user i us)"
proof -
  let ?f = "\<lambda>u. if live_with_id i u then u\<lparr>quota := quota u + d\<rparr> else u"
  have "find (live_with_id i) (map ?f us) = map_option ?f (find (live_with_id i) us)"
    by (rule find_map_pres) (simp add: live_with_id_def)
  moreover have "live_with_id i u" if "find (live_with_id i) us = Some u" for u
    using that by (simp add: find_SomeD)
  ultimately show ?thesis
    by (cases "find (live_with_id i) us") (simp_all add: sql_select_user_def sql_increment_quota_def)
qed

lemma select_Some_iff:
  "(\<exists>info. sql_select_user i us = Some info) \<longleftrightarrow> (\<exists>u \<in> set us. live_with_id i u)"
  by (cases "find (live_with_id i) us") (auto simp: sql_select_user_def find_None_iff dest: find_SomeD)

lemma increment_twice:
  "sql_increment_quota i d2 (sql_increment_quota i d1 us) = sql_increment_quota i (d1 + d2) us"
  by (simp add: sql_increment_quota_def live_with_id_def)

lemma no_live_row:
  assumes "\<forall>u \<in> set us. \<not> live_with_id i u"
  shows "sql_reset_quota i q us = us" "sql_update_group i g us = us"
    "sql_increment_quota i d us = us" "sql_select_user i us = None"
  using assms
  by (simp_all add: sql_reset_quota_def sql_update_group_def sql_increment_quota_def
      sql_select_user_def find_None_iff map_idI)

lemma two_conns:
  assumes "True \<notin> set (take 2 (pg_faults w))"
  shows "\<not> next_conn_fails w" "\<not> next_conn_fails (w\<lparr>pg_faults := tl (pg_faults w), users := us\<rparr>)"
proof -
  show "\<not> next_conn_fails w"
    using assms by (cases "pg_faults w") (auto simp: next_conn_fails_def)
  show "\<not> next_conn_fails (w\<lparr>pg_faults := tl (pg_faults w), users := us\<rparr>)"
  proof (cases "pg_faults w")
    case Nil
    then show ?thesis by (simp add: next_conn_fails_def)
  next
    case (Cons f fs)
    with assms show ?thesis
      by (cases fs) (auto simp: next_conn_fails_def numeral_2_eq_2)
  qed
qed

subsection \<open>Reset, then read\<close>

text \<open>
  Claim C4.  When a live row with the id exists and the next two connections
  are established, \<open>reset_user_quota user_id Q\<close> returns and \<open>get_user_by_id\<close>
  then returns that user with \<open>quota = Q\<close> and \<open>used_quota = 0\<close>, for every
  integer \<open>Q\<close>.  The reset is one \<open>UPDATE\<close>: whatever the connection does, each
  row of the table afterwards is either the row as it was or the row with
  both columns set.
\<close>

theorem reset_then_get:
  "((\<exists>u \<in> set (users w). live_with_id user_id u) \<and> True \<notin> set (take 2 (pg_faults w)) \<longrightarrow>
      (\<exists>w1 w2 info. reset_user_quota user_id Q w = (w1, Inr ()) \<and>
         get_user_by_id user_id w1 = (w2, Inr info) \<and>
         id' info = user_id \<and> quota info = Q \<and> used_quota info = 0)) \<and>
   list_all2 (\<lambda>u u'. u' = u \<or> u' = u\<lparr>quota := Q, used_quota := 0\<rparr>)
     (users w) (users (fst (reset_user_quota user_id Q w)))"
proof -
  have "\<exists>w1 w2 info. reset_user_quota user_id Q w = (w1, Inr ()) \<and>
         get_user_by_id user_id w1 = (w2, Inr info) \<and>
         id' info = user_id \<and> quota info = Q \<and> used_quota info = 0"
    if live: "\<exists>u \<in> set (users w). live_with_id user_id u"
      and up: "True \<notin> set (take 2 (pg_faults w))"
  proof -
    let ?w1 = "w\<lparr>pg_faults := tl (pg_faults w), users := sql_reset_quota user_id Q (users w)\<rparr>"
    from live obtain info0 where sel: "sql_select_user user_id (users w) = Some info0"
      using select_Some_iff [of user_id "users w"] by blast
    then obtain u where u: "find (live_with_id user_id) (users w) = Some u"
      by (auto simp: sql_select_user_def)
    then have "id' info0 = user_id"
      using sel find_SomeD [OF u] by (auto simp: sql_select_user_def live_with_id_def)
    let ?info = "info0\<lparr>quota := Q, used_quota := 0\<rparr>"
    have r: "reset_user_quota user_id Q w = (?w1, Inr ())"
      using two_conns(1) [OF up] by (simp add: reset_user_quota_eq)
    have "sql_select_user user_id (users ?w1) = Some ?info"
      by (simp add: select_after_reset sel)
    then have g: "get_user_by_id user_id ?w1 = (?w1\<lparr>pg_faults := tl (pg_faults ?w1)\<rparr>, Inr ?info)"
      using two_conns(2) [OF up] by (simp add: get_user_by_id_eq)
    show ?thesis
      using r g \<open>id' info0 = user_id\<close>
      by (intro exI [of _ ?w1] exI [of _ "?w1\<lparr>pg_faults := tl (pg_faults ?w1)\<rparr>"] exI [of _ ?info])
         simp
  qed
  moreover have "list_all2 (\<lambda>u u'. u' = u \<or> u' = u\<lparr>quota := Q, used_quota := 0\<rparr>)
     (users w) (users (fst (reset_user_quota user_id Q w)))"
    by (simp add: reset_user_quota_eq sql_reset_quota_def list_all2_map2 list_all2_same)
  ultimately show ?thesis by blast
qed

theorem reset_then_get_witness:
  "(\<exists>u \<in> set (users example_world). live_with_id 1 u) \<and>
   True \<notin> set (take 2 (pg_faults example_world)) \<and>
   (\<exists>w1 w2 info. reset_user_quota 1 4321 example_world = (w1, Inr ()) \<and>
      get_user_by_id 1 w1 = (w2, Inr info) \<and>
      id' info = 1 \<and> quota info = 4321 \<and> used_quota info = 0)"
proof -
  have h: "(\<exists>u \<in> set (users example_world). live_with_id 1 u) \<and>
           True \<notin> set (take 2 (pg_faults example_world))"
    by (simp add: example_world_def live_with_id_def user_A_def)
  with reset_then_get [of example_world 1 4321] show ?thesis by blast
qed

subsection \<open>Increments add up\<close>

text \<open>
  Claim C5.  When the connections are established, incrementing a user's
  quota by \<open>d1\<close> and then by \<open>d2\<close> leaves the table that one increment by
  \<open>d1 + d2\<close> leaves, for all integers \<open>d1\<close> and \<open>d2\<close>.  The user then reads with
  exactly the old quota plus \<open>d1 + d2\<close>: nothing clamps the sum, which may be
  negative.
\<close>

theorem increments_add_up:
  "True \<notin> set (take 2 (pg_faults w)) \<longrightarrow>
     (\<exists>w1 w2 w12.
        increment_user_quota user_id d1 w = (w1, Inr ()) \<and>
        increment_user_quota user_id d2 w1 = (w2, Inr ()) \<and>
        increment_user_quota user_id (d1 + d2) w = (w12, Inr ()) \<and>
        users w2 = users w12 \<and>
        sql_select_user user_id (users w2) =
          map_option (\<lambda>info. info\<lparr>quota := quota info + (d1 + d2)\<rparr>)
            (sql_select_user user_id (users w)))"
proof
  assume up: "True \<notin> set (take 2 (pg_faults w))"
  let ?w1 = "w\<lparr>pg_faults := tl (pg_faults w), users := sql_increment_quota user_id d1 (users w)\<rparr>"
  let ?w2 = "?w1\<lparr>pg_faults := tl (pg_faults ?w1), users := sql_increment_quota user_id d2 (users ?w1)\<rparr>"
  let ?w12 = "w\<lparr>pg_faults := tl (pg_faults w), users := sql_increment_quota user_id (d1 + d2) (users w)\<rparr>"
  have a: "increment_user_quota user_id d1 w = (?w1, Inr ())"
    using two_conns(1) [OF up] by (simp add: increment_user_quota_eq)
  have b: "increment_user_quota user_id d2 ?w1 = (?w2, Inr ())"
    using two_conns(2) [OF up] by (simp add: increment_user_quota_eq)
  have c: "increment_user_quota user_id (d1 + d2) w = (?w12, Inr ())"
    using two_conns(1) [OF up] by (simp add: increment_user_quota_eq)
  have d: "users ?w2 = users ?w12" by (simp add: increment_twice)
  have e: "sql_select_user user_id (users ?w2) =
          map_option (\<lambda>info. info\<lparr>quota := quota info + (d1 + d2)\<rparr>)
            (sql_select_user user_id (users w))"
    by (simp add: increment_twice select_after_increment)
  from a b c d e show "\<exists>w1 w2 w12.
        increment_user_quota user_id d1 w = (w1, Inr ()) \<and>
        increment_user_quota user_id d2 w1 = (w2, Inr ()) \<and>
        increment_user_quota user_id (d1 + d2) w = (w12, Inr ()) \<and>
        users w2 = users w12 \<and>
        sql_select_user user_id (users w2) =
          map_option (\<lambda>info. info\<lparr>quota := quota info + (d1 + d2)\<rparr>)
            (sql_select_user user_id (users w))"
    by blast
qed

theorem increments_add_up_witness:
  "True \<notin> set (take 2 (pg_faults example_world)) \<and>
   (\<exists>w1 w2 w12.
      increment_user_quota 1 (- 30) example_world = (w1, Inr ()) \<and>
      increment_user_quota 1 10 w1 = (w2, Inr ()) \<and>
      increment_user_quota 1 (- 20) example_world = (w12, Inr ()) \<and>
      users w2 = users w12 \<and>
      map_option quota (sql_select_user 1 (users w2)) = Some (- 20))"
proof -
  have up: "True \<notin> set (take 2 (pg_faults example_world))"
    by (simp add: example_world_def)
  have sel: "map_option quota (sql_select_user 1 (users example_world)) = Some 0"
    by (simp add: example_world_def sql_select_user_def live_with_id_def user_A_def)
  from increments_add_up [of example_world 1 "- 30" 10] up
  obtain w1 w2 w12 where
    "increment_user_quota 1 (- 30) example_world = (w1, Inr ())"
    "increment_user_quota 1 10 w1 = (w2, Inr ())"
    "increment_user_quota 1 (- 20) example_world = (w12, Inr ())"
    "users w2 = users w12"
    "sql_select_user 1 (users w2) =
       map_option (\<lambda>info. info\<lparr>quota := quota info + (- 30 + 10)\<rparr>)
         (sql_select_user 1 (users example_world))"
    by auto
  moreover from this(5) sel have "map_option quota (sql_select_user 1 (users w2)) = Some (- 20)"
    by (cases "sql_select_user 1 (users example_world)") auto
  ultimately show ?thesis using up by blast
qed

subsection \<open>Users that are missing or soft-deleted\<close>

lemma foldl_row_reset_id: "id' (foldl (row_reset V D) u rows) = id' u"
  by (induction rows arbitrary: u) (simp_all add: row_reset_def)

lemma daily_reset_users:
  "users (daily_reset t w) = users (fst (daily_reset_body (print (Started t) w)))"
  by (simp add: daily_reset_def print_def split: prod.splits sum.splits)

lemma daily_reset_users_any:
  "\<exists>k V D. k \<le> length (users_to_reset (users w)) \<and>
     users (daily_reset t w) = apply_resets (take k (users_to_reset (users w))) V D (users w)"
proof -
  let ?w0 = "print (Started t) w"
  have u0: "users ?w0 = users w" by (simp add: print_def)
  from daily_reset_body_any [of ?w0] show ?thesis
  proof
    assume "(py_int (get_setting ''daily_reset_quota_vip'' ''1000000'' ?w0) = None \<or>
             py_int (get_setting ''daily_reset_quota_default'' ''50000'' ?w0) = None) \<and>
            daily_reset_body ?w0 = (?w0, Inl ValueError)"
    then have "users (daily_reset t w) = apply_resets (take 0 (users_to_reset (users w))) 0 0 (users w)"
      by (simp add: daily_reset_users u0 apply_resets_def)
    then show ?thesis by (intro exI [of _ 0]) auto
  next
    assume "\<exists>V D k. py_int (get_setting ''daily_reset_quota_vip'' ''1000000'' ?w0) = Some V \<and>
      py_int (get_setting ''daily_reset_quota_default'' ''50000'' ?w0) = Some D \<and>
      k \<le> length (users_to_reset (users ?w0)) \<and>
      users (fst (daily_reset_body ?w0)) =
        apply_resets (take k (users_to_reset (users ?w0))) V D (users ?w0) \<and>
      (snd (daily_reset_body ?w0) = Inr () \<and> k = length (users_to_reset (users ?w0)) \<or>
       snd (daily_reset_body ?w0) = Inl OperationalError)"
    then show ?thesis unfolding daily_reset_users u0 by blast
  qed
qed

lemma daily_reset_keeps_ids: "map id' (users (daily_reset t w)) = map id' (users w)"
proof -
  from daily_reset_users_any [of w t] obtain k V D where
    "users (daily_reset t w) = apply_resets (take k (users_to_reset (users w))) V D (users w)"
    by blast
  then show ?thesis by (simp add: apply_resets_pointwise foldl_row_reset_id)
qed

lemma daily_reset_keeps_deleted:
  assumes "u \<in> set (users w)" "deleted_at u \<noteq> None"
  shows "u \<in> set (users (daily_reset t w))"
proof -
  from daily_reset_users_any [of w t] obtain k V D where
    eq: "users (daily_reset t w) = apply_resets (take k (users_to_reset (users w))) V D (users w)"
    by blast
  have "foldl (row_reset V D) u (take k (users_to_reset (users w))) = u"
    using assms(2) by (rule foldl_row_reset_deleted)
  then have "u \<in> (\<lambda>u. foldl (row_reset V D) u (take k (users_to_reset (users w)))) ` set (users w)"
    using assms(1) by force
  then show ?thesis by (simp add: eq apply_resets_pointwise)
qed

lemma deleted_no_live_row:
  assumes "distinct (map id' us)" "u \<in> set us" "deleted_at u \<noteq> None"
  shows "\<forall>x \<in> set us. \<not> live_with_id (id' u) x"
proof
  fix x assume x: "x \<in> set us"
  have "inj_on id' (set us)" using assms(1) by (simp add: distinct_map)
  show "\<not> live_with_id (id' u) x"
  proof
    assume "live_with_id (id' u) x"
    then have "id' x = id' u" "deleted_at x = None" by (simp_all add: live_with_id_def)
    with \<open>inj_on id' (set us)\<close> x assms(2) have "x = u" by (auto dest: inj_onD)
    with \<open>deleted_at x = None\<close> assms(3) show False by simp
  qed
qed

text \<open>
  Claim C3.  Let \<open>id\<close> be the key of \<open>users\<close> and let the row \<open>u\<close> be
  soft-deleted.  Then \<open>get_user_by_id\<close> on its id raises the 404 whenever the
  database answers and never returns the row; \<open>update_user_group\<close>,
  \<open>increment_user_quota\<close> and \<open>reset_user_quota\<close> on its id leave the table as
  it was; its id is not among the rows that \<open>daily_reset\<close> selects, and after a
  run of the job the row is still in the table, unchanged, under the same id.
\<close>

theorem soft_deleted_is_invisible:
  assumes "distinct (map id' (users w))" and "u \<in> set (users w)" and "deleted_at u \<noteq> None"
  shows "snd (get_user_by_id (id' u) w) =
           (if next_conn_fails w then Inl OperationalError
            else Inl (HTTPException 404 ''User not found or has been deleted'')) \<and>
         users (fst (update_user_group (id' u) grp w)) = users w \<and>
         users (fst (increment_user_quota (id' u) delta w)) = users w \<and>
         users (fst (reset_user_quota (id' u) new_quota w)) = users w \<and>
         id' u \<notin> fst ` set (users_to_reset (users w)) \<and>
         u \<in> set (users (daily_reset triggered_by w)) \<and>
         map id' (users (daily_reset triggered_by w)) = map id' (users w)"
proof -
  note none = deleted_no_live_row [OF assms]
  have "snd (get_user_by_id (id' u) w) =
           (if next_conn_fails w then Inl OperationalError
            else Inl (HTTPException 404 ''User not found or has been deleted''))"
    by (simp add: get_user_by_id_eq no_live_row(4) [OF none])
  moreover have "users (fst (update_user_group (id' u) grp w)) = users w"
    by (simp add: update_user_group_eq no_live_row(2) [OF none])
  moreover have "users (fst (increment_user_quota (id' u) delta w)) = users w"
    by (simp add: increment_user_quota_eq no_live_row(3) [OF none])
  moreover have "users (fst (reset_user_quota (id' u) new_quota w)) = users w"
    by (simp add: reset_user_quota_eq no_live_row(1) [OF none])
  moreover have "id' u \<notin> fst ` set (users_to_reset (users w))"
  proof
    assume "id' u \<in> fst ` set (users_to_reset (users w))"
    then obtain c where "c \<in> set (users_to_reset (users w))" "fst c = id' u" by force
    then obtain x where "x \<in> set (users w)" "id' x = id' u" "deleted_at x = None"
      by (auto simp: users_to_reset_iff)
    with none show False by (auto simp: live_with_id_def)
  qed
  moreover have "u \<in> set (users (daily_reset triggered_by w))"
    using assms(2,3) by (rule daily_reset_keeps_deleted)
  ultimately show ?thesis by (simp add: daily_reset_keeps_ids)
qed

theorem soft_deleted_is_invisible_witness:
  "distinct (map id' (users example_world)) \<and> user_D \<in> set (users example_world) \<and>
   deleted_at user_D \<noteq> None \<and>
   snd (get_user_by_id 4 example_world) =
     Inl (HTTPException 404 ''User not found or has been deleted'') \<and>
   users (fst (update_user_group 4 ''vip'' example_world)) = [user_A, user_B, user_C, user_D] \<and>
   users (fst (increment_user_quota 4 100 example_world)) = [user_A, user_B, user_C, user_D] \<and>
   users (fst (reset_user_quota 4 100 example_world)) = [user_A, user_B, user_C, user_D] \<and>
   4 \<notin> fst ` set (users_to_reset (users example_world)) \<and>
   user_D \<in> set (users (daily_reset ''manual'' example_world))"
proof -
  have h1: "distinct (map id' (users example_world))"
    by (simp add: example_world_def user_A_def user_B_def user_C_def user_D_def)
  have h2: "user_D \<in> set (users example_world)" by (simp add: example_world_def)
  have h3: "deleted_at user_D \<noteq> None" by (simp add: user_D_def)
  have id: "id' user_D = 4" by (simp add: user_D_def)
  have up: "\<not> next_conn_fails example_world" by (simp add: next_conn_fails_def example_world_def)
  have us: "users example_world = [user_A, user_B, user_C, user_D]" by (simp add: example_world_def)
  show ?thesis
    using soft_deleted_is_invisible [OF h1 h2 h3, of "''vip''" 100 100 "''manual''"] h1 h2 h3 up
    by (simp only: id us if_False) simp
qed

subsection \<open>Mutations of a user that is not there\<close>

text \<open>
  Claim C10.  Let no live row carry the id and let the request be
  authenticated.  The three mutation endpoints then never raise the 404: when
  the connection is established each returns \<open>{ok: true}\<close>, and in every case
  the tables stay as they were (only the connection is used up).  The read
  endpoint does raise the 404 for the same id.
\<close>

theorem mutations_on_missing_user_ok:
  assumes "require_admin_auth request w = Inr ()"
    and "\<forall>u \<in> set (users w). \<not> live_with_id user_id u"
  shows "update_user_group_api (UserGroupUpdatePayload user_id grp) request w =
           (w\<lparr>pg_faults := tl (pg_faults w)\<rparr>,
            if next_conn_fails w then Inl OperationalError else Inr (Ok True)) \<and>
         increment_quota_api (UserQuotaUpdatePayload user_id delta) request w =
           (w\<lparr>pg_faults := tl (pg_faults w)\<rparr>,
            if next_conn_fails w then Inl OperationalError else Inr (Ok True)) \<and>
         reset_quota_api (UserQuotaResetPayload user_id new_quota) request w =
           (w\<lparr>pg_faults := tl (pg_faults w)\<rparr>,
            if next_conn_fails w then Inl OperationalError else Inr (Ok True)) \<and>
         get_user_info user_id request w =
           (w\<lparr>pg_faults := tl (pg_faults w)\<rparr>,
            if next_conn_fails w then Inl OperationalError
            else Inl (HTTPException 404 ''User not found or has been deleted''))"
proof -
  have same: "w\<lparr>pg_faults := tl (pg_faults w), users := users w\<rparr> = w\<lparr>pg_faults := tl (pg_faults w)\<rparr>"
    by simp
  show ?thesis
    using assms(1)
    by (simp add: update_user_group_eq increment_user_quota_eq reset_user_quota_eq
        get_user_info_def get_user_by_id_eq no_live_row [OF assms(2)])
qed

theorem mutations_on_missing_user_ok_witness:
  "require_admin_auth \<lparr>authorization = Some ''Bearer 00ff''\<rparr> example_world = Inr () \<and>
   filter (live_with_id 99) (users example_world) = [] \<and>
   update_user_group_api (UserGroupUpdatePayload 99 ''vip'')
       \<lparr>authorization = Some ''Bearer 00ff''\<rparr> example_world = (example_world, Inr (Ok True)) \<and>
   increment_quota_api (UserQuotaUpdatePayload 99 5)
       \<lparr>authorization = Some ''Bearer 00ff''\<rparr> example_world = (example_world, Inr (Ok True)) \<and>
   reset_quota_api (UserQuotaResetPayload 99 5)
       \<lparr>authorization = Some ''Bearer 00ff''\<rparr> example_world = (example_world, Inr (Ok True)) \<and>
   get_user_info 99 \<lparr>authorization = Some ''Bearer 00ff''\<rparr> example_world =
     (example_world, Inl (HTTPException 404 ''User not found or has been deleted''))"
proof -
  have auth: "require_admin_auth \<lparr>authorization = Some ''Bearer 00ff''\<rparr> example_world = Inr ()"
    by (simp add: require_admin_auth_def startswith_def is_valid_token_def example_world_def)
  have none: "\<forall>u \<in> set (users example_world). \<not> live_with_id 99 u"
    by (simp add: example_world_def live_with_id_def user_A_def user_B_def user_C_def user_D_def)
  have up: "\<not> next_conn_fails example_world" by (simp add: next_conn_fails_def example_world_def)
  have same: "example_world\<lparr>pg_faults := tl (pg_faults example_world)\<rparr> = example_world"
    by (simp add: example_world_def)
  have none': "filter (live_with_id 99) (users example_world) = []"
    using none by (simp add: filter_empty_conv)
  show ?thesis
    using mutations_on_missing_user_ok [OF auth none, of "''vip''" 5 5] auth none' up
    by (simp only: same if_False)
qed

subsection \<open>The last line of a run\<close>

lemma daily_reset_body_Inr:
  "daily_reset_body w = (w', Inr x) \<Longrightarrow> last (stdout w') = Finished"
  by (auto simp: daily_reset_body_def postgres_conn_def Let_def print_def
           split: option.splits list.splits prod.splits sum.splits if_splits)

lemma daily_reset_last_line:
  "last (stdout (daily_reset t w)) = Finished \<or> (\<exists>e. last (stdout (daily_reset t w)) = Failed e)"
proof -
  obtain w' r where body: "daily_reset_body (print (Started t) w) = (w', r)"
    by (cases "daily_reset_body (print (Started t) w)")
  show ?thesis
  proof (cases r)
    case (Inl e)
    with body show ?thesis by (simp add: daily_reset_def print_def)
  next
    case (Inr x)
    with body daily_reset_body_Inr [of "print (Started t) w" w' x] show ?thesis
      by (simp add: daily_reset_def)
  qed
qed

lemma daily_reset_users_cases:
  "(case (py_int (get_setting ''daily_reset_quota_vip'' ''1000000'' w),
          py_int (get_setting ''daily_reset_quota_default'' ''50000'' w)) of
      (Some V, Some D) \<Rightarrow>
        \<exists>k \<le> length (users_to_reset (users w)).
          users (daily_reset t w) = apply_resets (take k (users_to_reset (users w))) V D (users w)
    | _ \<Rightarrow> users (daily_reset t w) = users w)"
proof -
  let ?w0 = "print (Started t) w"
  have u0: "users ?w0 = users w" by (simp add: print_def)
  from daily_reset_body_any [of ?w0] show ?thesis
  proof
    assume "(py_int (get_setting ''daily_reset_quota_vip'' ''1000000'' ?w0) = None \<or>
             py_int (get_setting ''daily_reset_quota_default'' ''50000'' ?w0) = None) \<and>
            daily_reset_body ?w0 = (?w0, Inl ValueError)"
    then show ?thesis
      by (auto simp: daily_reset_users u0 split: option.splits)
  next
    assume "\<exists>V D k. py_int (get_setting ''daily_reset_quota_vip'' ''1000000'' ?w0) = Some V \<and>
      py_int (get_setting ''daily_reset_quota_default'' ''50000'' ?w0) = Some D \<and>
      k \<le> length (users_to_reset (users ?w0)) \<and>
      users (fst (daily_reset_body ?w0)) =
        apply_resets (take k (users_to_reset (users ?w0))) V D (users ?w0) \<and>
      (snd (daily_reset_body ?w0) = Inr () \<and> k = length (users_to_reset (users ?w0)) \<or>
       snd (daily_reset_body ?w0) = Inl OperationalError)"
    then obtain V D k where
      "py_int (get_setting ''daily_reset_quota_vip'' ''1000000'' w) = Some V"
      "py_int (get_setting ''daily_reset_quota_default'' ''50000'' w) = Some D"
      "k \<le> length (users_to_reset (users w))"
      "users (daily_reset t w) = apply_resets (take k (users_to_reset (users w))) V D (users w)"
      unfolding daily_reset_users u0 by auto
    then show ?thesis by auto
  qed
qed

subsection \<open>Running the job twice\<close>

lemma get_setting_cong:
  "settings w' = settings w \<Longrightarrow> get_setting k d w' = get_setting k d w"
  by (simp add: get_setting_def)

lemma tier_reset_idem: "tier_reset V D (tier_reset V D u) = tier_reset V D u"
  by (simp add: tier_reset_def)

text \<open>
  Claim C9.  Let \<open>id\<close> be the key of \<open>users\<close> and let the database answer.  A
  second run of \<open>daily_reset\<close> right after a first one, with the settings as the
  first run found them, leaves the table exactly as the first run left it.
\<close>

theorem daily_reset_idempotent:
  assumes "distinct (map id' (users w))" and "store_up w"
  shows "users (daily_reset t2 (daily_reset t1 w)) = users (daily_reset t1 w)"
proof -
  let ?w1 = "daily_reset t1 w"
  let ?vip = "\<lambda>w. py_int (get_setting ''daily_reset_quota_vip'' ''1000000'' w)"
  let ?def = "\<lambda>w. py_int (get_setting ''daily_reset_quota_default'' ''50000'' w)"
  have set1: "settings ?w1 = settings w" by (simp add: daily_reset_frame)
  have vip1: "?vip ?w1 = ?vip w" and def1: "?def ?w1 = ?def w"
    by (simp_all add: get_setting_cong [OF set1])
  show ?thesis
  proof (cases "\<exists>V D. ?vip w = Some V \<and> ?def w = Some D")
    case True
    then obtain V D where V: "?vip w = Some V" and D: "?def w = Some D" by blast
    have r1: "users ?w1 = map (tier_reset V D) (users w)" "store_up ?w1"
      using daily_reset_up [OF assms(2) V D, of t1] assms(1) by (simp_all add: apply_resets_tier)
    have pk1: "distinct (map id' (users ?w1))"
      using assms(1) by (simp add: daily_reset_keeps_ids)
    have "users (daily_reset t2 ?w1) = map (tier_reset V D) (users ?w1)"
      using daily_reset_up [OF r1(2), of V D t2] V D vip1 def1 pk1
      by (simp add: apply_resets_tier)
    then show ?thesis by (simp add: r1(1) tier_reset_idem)
  next
    case False
    then have "users (daily_reset t2 ?w1) = users ?w1"
      using daily_reset_users_cases [where w = ?w1 and t = t2]
      by (auto simp: vip1 def1 split: option.splits)
    then show ?thesis .
  qed
qed

theorem daily_reset_idempotent_witness:
  "distinct (map id' (users example_world)) \<and> store_up example_world \<and>
   users (daily_reset ''manual'' (daily_reset ''manual'' example_world)) =
     [user_A\<lparr>quota := 100000, used_quota := 0\<rparr>, user_B\<lparr>quota := 20000, used_quota := 0\<rparr>,
      user_C, user_D]"
proof -
  have h1: "distinct (map id' (users example_world))"
    by (simp add: example_world_def user_A_def user_B_def user_C_def user_D_def)
  have h2: "store_up example_world"
    by (simp add: example_world_def store_up_def)
  have once: "users (daily_reset ''manual'' example_world) =
     [user_A\<lparr>quota := 100000, used_quota := 0\<rparr>, user_B\<lparr>quota := 20000, used_quota := 0\<rparr>,
      user_C, user_D]"
    by (simp add: example_world_def daily_reset_def daily_reset_body_def
      print_def get_setting_def py_int_literals postgres_conn_def users_to_reset_def
      reset_user_quota_def sql_reset_quota_def live_with_id_def quota_to_set_def
      user_A_def user_B_def user_C_def user_D_def)
  from daily_reset_idempotent [OF h1 h2, of "''manual''" "''manual''"] once h1 h2
  show ?thesis by simp
qed

subsection \<open>The job, exactly\<close>

lemma resets_before_fault_Nil: "resets_before_fault n [] = n"
  by (cases n) simp_all

lemma resets_before_fault_Suc:
  "resets_before_fault (Suc n) (pg_faults w) =
     (if next_conn_fails w then 0 else Suc (resets_before_fault n (tl (pg_faults w))))"
  by (cases "pg_faults w") (simp_all add: next_conn_fails_def resets_before_fault_Nil)

lemma resets_before_fault_le: "resets_before_fault n fs \<le> n"
  by (induction n fs rule: resets_before_fault.induct) simp_all

lemma reset_loop_exact:
  "users (fst (reset_loop rows V D w)) =
     apply_resets (take (resets_before_fault (length rows) (pg_faults w)) rows) V D (users w) \<and>
   stdout (fst (reset_loop rows V D w)) =
     stdout w @ map (reset_line V D) (take (resets_before_fault (length rows) (pg_faults w)) rows) \<and>
   snd (reset_loop rows V D w) =
     (if resets_before_fault (length rows) (pg_faults w) < length rows
      then Inl OperationalError else Inr ())"
proof (induction rows arbitrary: w)
  case Nil
  then show ?case by (simp add: apply_resets_def)
next
  case (Cons c rows)
  obtain i g where c: "c = (i, g)" by (cases c)
  show ?case
  proof (cases "next_conn_fails w")
    case True
    then show ?thesis
      by (simp add: c reset_user_quota_eq resets_before_fault_Suc apply_resets_def)
  next
    case False
    let ?q = "quota_to_set V D g"
    let ?w1 = "print (ResetDone g i ?q)
                (w\<lparr>pg_faults := tl (pg_faults w), users := sql_reset_quota i ?q (users w)\<rparr>)"
    let ?k = "resets_before_fault (length rows) (tl (pg_faults w))"
    have unfold: "reset_loop (c # rows) V D w = reset_loop rows V D ?w1"
      using False by (simp add: c reset_user_quota_eq)
    have k: "resets_before_fault (length (c # rows)) (pg_faults w) = Suc ?k"
      using False by (simp add: resets_before_fault_Suc)
    have w1: "pg_faults ?w1 = tl (pg_faults w)" "users ?w1 = sql_reset_quota i ?q (users w)"
      "stdout ?w1 = stdout w @ [reset_line V D c]"
      by (simp_all add: print_def reset_line_def c)
    from Cons.IH [of ?w1] have ih:
      "users (fst (reset_loop rows V D ?w1)) =
         apply_resets (take ?k rows) V D (sql_reset_quota i ?q (users w))"
      "stdout (fst (reset_loop rows V D ?w1)) =
         (stdout w @ [reset_line V D c]) @ map (reset_line V D) (take ?k rows)"
      "snd (reset_loop rows V D ?w1) = (if ?k < length rows then Inl OperationalError else Inr ())"
      unfolding w1 by blast+
    have "apply_resets (take ?k rows) V D (sql_reset_quota i ?q (users w)) =
            apply_resets (take (Suc ?k) (c # rows)) V D (users w)"
      by (simp add: apply_resets_def c)
    with ih show ?thesis
      unfolding unfold k by simp
  qed
qed

lemma daily_reset_exact:
  "users (daily_reset t w) =
     (case job_quotas w of
        None \<Rightarrow> users w
      | Some (V, D) \<Rightarrow>
          if next_conn_fails w then users w
          else apply_resets (take (resets_done w) (users_to_reset (users w))) V D (users w)) \<and>
   stdout (daily_reset t w) =
     stdout w @ Started t #
       (case job_quotas w of
          None \<Rightarrow> [Failed ValueError]
        | Some (V, D) \<Rightarrow>
            if next_conn_fails w then [Failed OperationalError]
            else Found (length (users_to_reset (users w))) #
                 map (reset_line V D) (take (resets_done w) (users_to_reset (users w))) @
                 [if resets_done w < length (users_to_reset (users w))
                  then Failed OperationalError else Finished])"
proof (cases "job_quotas w")
  case None
  then have "py_int (get_setting ''daily_reset_quota_vip'' ''1000000'' w) = None \<or>
             py_int (get_setting ''daily_reset_quota_default'' ''50000'' w) = None"
    by (auto simp: job_quotas_def split: option.splits)
  then have "daily_reset_body (print (Started t) w) = (print (Started t) w, Inl ValueError)"
    by (auto simp: daily_reset_body_def split: option.splits)
  then show ?thesis using None by (simp add: daily_reset_def print_def)
next
  case (Some p)
  obtain V D where p: "p = (V, D)" by (cases p)
  from Some have V: "py_int (get_setting ''daily_reset_quota_vip'' ''1000000'' w) = Some V"
    and D: "py_int (get_setting ''daily_reset_quota_default'' ''50000'' w) = Some D"
    by (auto simp: job_quotas_def p split: option.splits)
  let ?w0 = "print (Started t) w"
  let ?rows = "users_to_reset (users w)"
  have w0: "pg_faults ?w0 = pg_faults w" "users ?w0 = users w" "stdout ?w0 = stdout w @ [Started t]"
    "next_conn_fails ?w0 = next_conn_fails w"
    by (simp_all add: print_def next_conn_fails_def)
  show ?thesis
  proof (cases "next_conn_fails w")
    case True
    then have "daily_reset_body ?w0 = (?w0\<lparr>pg_faults := tl (pg_faults ?w0)\<rparr>, Inl OperationalError)"
      using V D by (simp add: daily_reset_body_def postgres_conn_eq w0(4))
    then show ?thesis using True Some by (simp add: daily_reset_def print_def p)
  next
    case False
    let ?w2 = "print (Found (length ?rows)) (?w0\<lparr>pg_faults := tl (pg_faults ?w0)\<rparr>)"
    have w2: "pg_faults ?w2 = tl (pg_faults w)" "users ?w2 = users w"
      "stdout ?w2 = stdout w @ [Started t, Found (length ?rows)]"
      by (simp_all add: print_def)
    obtain w3 r where loop: "reset_loop ?rows V D ?w2 = (w3, r)"
      by (cases "reset_loop ?rows V D ?w2")
    from reset_loop_exact [of ?rows V D ?w2] have w3:
      "users w3 = apply_resets (take (resets_done w) ?rows) V D (users w)"
      "stdout w3 = (stdout w @ [Started t, Found (length ?rows)]) @
                   map (reset_line V D) (take (resets_done w) ?rows)"
      "r = (if resets_done w < length ?rows then Inl OperationalError else Inr ())"
      unfolding w2 loop resets_done_def by simp_all
    have body: "daily_reset_body ?w0 =
              (case r of Inl e \<Rightarrow> (w3, Inl e) | Inr _ \<Rightarrow> (print Finished w3, Inr ()))"
      using False loop V D
      by (simp add: daily_reset_body_def postgres_conn_eq w0(2,4) split: sum.splits)
    show ?thesis
    proof (cases "resets_done w < length ?rows")
      case True
      with w3(3) body have "daily_reset t w = print (Failed OperationalError) w3"
        by (simp add: daily_reset_def)
      then show ?thesis using True False Some w3(1,2) by (simp add: print_def p)
    next
      case fin: False
      with w3(3) body have "daily_reset t w = print Finished w3"
        by (simp add: daily_reset_def)
      then show ?thesis using fin False Some w3(1,2) by (simp add: print_def p)
    qed
  qed
qed

text \<open>
  Claim C8.  An authenticated call of the manual trigger returns
  \<open>{ok: true, message}\<close> in every case, and the state it returns with the
  response is the state after the whole run of the job.  The run is described
  exactly, for every state and every schedule of database failures: when a
  setting does not parse, or the first connection fails, the table is
  untouched and the exception is printed; otherwise the first
  \<open>resets_done w\<close> selected rows have been reset, which are the rows whose
  connection was established before the first one that failed, and these
  resets stay in the table when the job then prints the exception instead of
  the completion line.
\<close>

theorem trigger_daily_reset_always_ok:
  assumes "require_admin_auth request w = Inr ()"
  shows "snd (trigger_daily_reset_now request w) =
           Inr (OkMessage True ''Immediate reset task has been triggered successfully.'') \<and>
         users (fst (trigger_daily_reset_now request w)) =
           (case job_quotas w of
              None \<Rightarrow> users w
            | Some (V, D) \<Rightarrow>
                if next_conn_fails w then users w
                else apply_resets (take (resets_done w) (users_to_reset (users w))) V D (users w)) \<and>
         stdout (fst (trigger_daily_reset_now request w)) =
           stdout w @ Started ''manual'' #
             (case job_quotas w of
                None \<Rightarrow> [Failed ValueError]
              | Some (V, D) \<Rightarrow>
                  if next_conn_fails w then [Failed OperationalError]
                  else Found (length (users_to_reset (users w))) #
                       map (reset_line V D) (take (resets_done w) (users_to_reset (users w))) @
                       [if resets_done w < length (users_to_reset (users w))
                        then Failed OperationalError else Finished]) \<and>
         settings (fst (trigger_daily_reset_now request w)) = settings w \<and>
         admin_sessions (fst (trigger_daily_reset_now request w)) = admin_sessions w"
proof -
  have "trigger_daily_reset_now request w =
           (daily_reset ''manual'' w,
            Inr (OkMessage True ''Immediate reset task has been triggered successfully.''))"
    using assms by (simp add: trigger_daily_reset_now_def)
  then show ?thesis
    using daily_reset_exact [of "''manual''" w] daily_reset_frame [of "''manual''" w]
    by simp
qed

lemma faulty_world_facts:
  "job_quotas faulty_world = Some (100000, 20000)"
  "\<not> next_conn_fails faulty_world"
  "users_to_reset [user_A, user_B, user_C, user_D] = [(1, ''vip''), (2, ''default'')]"
  "resets_done faulty_world = 1"
  "users faulty_world = [user_A, user_B, user_C, user_D]"
  "stdout faulty_world = []"
proof -
  show "job_quotas faulty_world = Some (100000, 20000)"
    by (simp add: job_quotas_def faulty_world_def example_world_def get_setting_def py_int_literals)
  show "\<not> next_conn_fails faulty_world"
    by (simp add: next_conn_fails_def faulty_world_def)
  show rows: "users_to_reset [user_A, user_B, user_C, user_D] = [(1, ''vip''), (2, ''default'')]"
    by (simp add: users_to_reset_def user_A_def user_B_def user_C_def user_D_def)
  have us: "users faulty_world = [user_A, user_B, user_C, user_D]"
    by (simp add: faulty_world_def example_world_def)
  have "resets_before_fault (Suc (Suc 0)) [False, True] = 1" by simp
  then show "resets_done faulty_world = 1"
    by (simp add: resets_done_def us rows) (simp add: faulty_world_def)
  show "users faulty_world = [user_A, user_B, user_C, user_D]"
    by (simp add: faulty_world_def example_world_def)
  show "stdout faulty_world = []"
    by (simp add: faulty_world_def example_world_def)
qed

lemma garbled_world_facts:
  "job_quotas garbled_world = None"
  "users garbled_world = [user_A, user_B, user_C, user_D]"
  "stdout garbled_world = []"
  "require_admin_auth \<lparr>authorization = Some ''Bearer 00ff''\<rparr> garbled_world = Inr ()"
  by (simp_all add: job_quotas_def garbled_world_def example_world_def get_setting_def
      py_int_examples require_admin_auth_def startswith_def is_valid_token_def)

theorem trigger_daily_reset_always_ok_witness:
  "require_admin_auth \<lparr>authorization = Some ''Bearer 00ff''\<rparr> faulty_world = Inr () \<and>
   pg_faults faulty_world = [False, False, True] \<and>
   snd (trigger_daily_reset_now \<lparr>authorization = Some ''Bearer 00ff''\<rparr> faulty_world) =
     Inr (OkMessage True ''Immediate reset task has been triggered successfully.'') \<and>
   users (fst (trigger_daily_reset_now \<lparr>authorization = Some ''Bearer 00ff''\<rparr> faulty_world)) =
     [user_A\<lparr>quota := 100000, used_quota := 0\<rparr>, user_B, user_C, user_D] \<and>
   stdout (fst (trigger_daily_reset_now \<lparr>authorization = Some ''Bearer 00ff''\<rparr> faulty_world)) =
     [Started ''manual'', Found 2, ResetDone ''vip'' 1 100000, Failed OperationalError] \<and>
   require_admin_auth \<lparr>authorization = Some ''Bearer 00ff''\<rparr> garbled_world = Inr () \<and>
   snd (trigger_daily_reset_now \<lparr>authorization = Some ''Bearer 00ff''\<rparr> garbled_world) =
     Inr (OkMessage True ''Immediate reset task has been triggered successfully.'') \<and>
   users (fst (trigger_daily_reset_now \<lparr>authorization = Some ''Bearer 00ff''\<rparr> garbled_world)) =
     [user_A, user_B, user_C, user_D] \<and>
   stdout (fst (trigger_daily_reset_now \<lparr>authorization = Some ''Bearer 00ff''\<rparr> garbled_world)) =
     [Started ''manual'', Failed ValueError]"
proof -
  have auth: "require_admin_auth \<lparr>authorization = Some ''Bearer 00ff''\<rparr> faulty_world = Inr ()"
    by (simp add: require_admin_auth_def startswith_def is_valid_token_def
        faulty_world_def example_world_def)
  have faults: "pg_faults faulty_world = [False, False, True]"
    by (simp add: faulty_world_def)
  have table: "apply_resets [(1, ''vip'')] 100000 20000
                 [user_A, user_B, user_C, user_D] =
               [user_A\<lparr>quota := 100000, used_quota := 0\<rparr>, user_B, user_C, user_D]"
    by (simp add: apply_resets_def sql_reset_quota_def live_with_id_def quota_to_set_def
        user_A_def user_B_def user_C_def user_D_def)
  have log: "reset_line 100000 20000 (1, ''vip'') = ResetDone ''vip'' 1 100000"
    by (simp add: reset_line_def quota_to_set_def)
  have f: "snd (trigger_daily_reset_now \<lparr>authorization = Some ''Bearer 00ff''\<rparr> faulty_world) =
       Inr (OkMessage True ''Immediate reset task has been triggered successfully.'') \<and>
     users (fst (trigger_daily_reset_now \<lparr>authorization = Some ''Bearer 00ff''\<rparr> faulty_world)) =
       [user_A\<lparr>quota := 100000, used_quota := 0\<rparr>, user_B, user_C, user_D] \<and>
     stdout (fst (trigger_daily_reset_now \<lparr>authorization = Some ''Bearer 00ff''\<rparr> faulty_world)) =
       [Started ''manual'', Found 2, ResetDone ''vip'' 1 100000, Failed OperationalError]"
    using trigger_daily_reset_always_ok [OF auth]
    by (simp add: faulty_world_facts table log)
  have g: "snd (trigger_daily_reset_now \<lparr>authorization = Some ''Bearer 00ff''\<rparr> garbled_world) =
       Inr (OkMessage True ''Immediate reset task has been triggered successfully.'') \<and>
     users (fst (trigger_daily_reset_now \<lparr>authorization = Some ''Bearer 00ff''\<rparr> garbled_world)) =
       [user_A, user_B, user_C, user_D] \<and>
     stdout (fst (trigger_daily_reset_now \<lparr>authorization = Some ''Bearer 00ff''\<rparr> garbled_world)) =
       [Started ''manual'', Failed ValueError]"
    using trigger_daily_reset_always_ok [OF garbled_world_facts(4)]
    by (simp add: garbled_world_facts)
  from auth faults f g garbled_world_facts(4) show ?thesis by (simp only: simp_thms)
qed

end
